theory Spec2Isabelle
  imports Complex_Main "HOL-Library.Log_Nat"
begin

section \<open>Data model\<close>

text \<open>
  The application keeps its data in tables of a hosted database and reaches them through
  table-level calls. A table is a list of rows. Identifiers are opaque and only compared
  for equality; instants are milliseconds since the epoch, as \<open>Date.getTime()\<close> gives
  them.
\<close>

section \<open>Numbers\<close>

text \<open>
  A JavaScript number is an IEEE 754 double. A money amount is kept as the real value
  of a finite double, and \<open>+\<close>, \<open>-\<close> and \<open>*\<close> on amounts give the exact result rounded
  to the nearest double, ties to the even mantissa: \<open>to_double\<close>. The doubles are the
  multiples of \<open>2 ^ -1074\<close> whose mantissa fits 53 bits, so a value is scaled by
  \<open>2 ^ 1074\<close>, the bits beyond the leading 53 of its integer part are rounded away,
  and the result is scaled back. Amounts are finite and stay below \<open>2 ^ 1024\<close> in
  magnitude, where a double would become \<open>Infinity\<close>; \<open>NaN\<close> and the sign of zero
  are left out. Quantities and stock levels are whole numbers far below \<open>2 ^ 53\<close>,
  where the arithmetic of doubles on whole numbers is exact, and are kept as integers.
\<close>

definition round_even :: "real \<Rightarrow> int" where
  "round_even r =
     (let f = \<lfloor>r\<rfloor>
      in if r - of_int f < 1 / 2 then f
         else if 1 / 2 < r - of_int f then f + 1
         else if even f then f else f + 1)"

definition subnormal_bits :: nat where
  "subnormal_bits = 1074"

definition to_double :: "real \<Rightarrow> real" where
  "to_double x =
     (let s = nat (bitlen \<lfloor>\<bar>x\<bar> * 2 ^ subnormal_bits\<rfloor> - 53)
      in of_int (round_even (x * 2 ^ subnormal_bits / 2 ^ s)) * 2 ^ s / 2 ^ subnormal_bits)"

definition dadd :: "real \<Rightarrow> real \<Rightarrow> real" where
  "dadd x y = to_double (x + y)"

definition dsub :: "real \<Rightarrow> real \<Rightarrow> real" where
  "dsub x y = to_double (x - y)"

definition dmul :: "real \<Rightarrow> real \<Rightarrow> real" where
  "dmul x y = to_double (x * y)"

section \<open>Rows and the store\<close>

type_synonym ident = nat
type_synonym instant = int

datatype payment_status = Paid | Pending | Overdue

record customer =
  c_id :: ident
  c_name :: string
  c_email :: "string option"
  c_phone :: "string option"

record product =
  p_id :: ident
  p_name :: string
  p_cost :: real
  p_stock_quantity :: int
  p_is_active :: bool
  p_updated_at :: instant

text \<open>
  An entry of \<open>selectedProducts\<close> is built as \<open>{ ...product, quantity, sellingPrice }\<close>:
  a copy of the product row as it was fetched, extended by two fields.
\<close>

record cart_line = product +
  quantity :: int
  sellingPrice :: real

record sale =
  s_id :: ident
  s_customer_id :: ident
  s_user_id :: ident
  s_total_amount :: real
  s_total_cost :: real
  s_payment_status :: payment_status
  s_due_date :: "string option"
  s_sale_date :: instant

record sale_item =
  si_sale_id :: ident
  si_product_id :: ident
  si_quantity :: int
  si_unit_price :: real
  si_unit_cost :: real

record debtor =
  d_id :: ident
  d_sale_id :: ident
  d_amount_owed :: real
  d_due_date :: instant
  d_is_resolved :: bool
  d_updated_at :: instant

text \<open>
  The store: the five tables, the signed-in user, the next identifier the database hands
  out on an insert, and the outcomes of the coming store calls. Each call to the store
  takes the head of \<open>faults\<close>: \<open>Some msg\<close> makes the call fail with that message and
  leave the tables as they are, \<open>None\<close> (or an exhausted list) lets it go through.
\<close>

record store =
  customers :: "customer list"
  sales :: "sale list"
  sale_items :: "sale_item list"
  products :: "product list"
  debtors :: "debtor list"
  session :: "ident option"
  next_id :: ident
  faults :: "string option list"

datatype error = NotAuthenticated | StoreError string

section \<open>Store calls\<close>

definition store_call :: "store \<Rightarrow> string option \<times> store" where
  "store_call st =
     (case faults st of
        [] \<Rightarrow> (None, st)
      | f # fs \<Rightarrow> (f, st\<lparr>faults := fs\<rparr>))"

text \<open>\<open>.single()\<close> yields the row when exactly one row matches and an error otherwise.\<close>

definition single :: "'a list \<Rightarrow> string + 'a" where
  "single rows = (case rows of [r] \<Rightarrow> Inr r | _ \<Rightarrow> Inl ''PGRST116'')"

definition debtors_update_resolved :: "instant \<Rightarrow> ident \<Rightarrow> store \<Rightarrow> string option \<times> store" where
  "debtors_update_resolved now debtorId st =
     (case store_call st of
        (Some e, st') \<Rightarrow> (Some e, st')
      | (None, st') \<Rightarrow>
          (None, st'\<lparr>debtors :=
             map (\<lambda>d. if d_id d = debtorId
                       then d\<lparr>d_is_resolved := True, d_updated_at := now\<rparr> else d)
                 (debtors st')\<rparr>))"

definition debtors_select_single :: "ident \<Rightarrow> store \<Rightarrow> (string + debtor) \<times> store" where
  "debtors_select_single debtorId st =
     (case store_call st of
        (Some e, st') \<Rightarrow> (Inl e, st')
      | (None, st') \<Rightarrow> (single (filter (\<lambda>d. d_id d = debtorId) (debtors st')), st'))"

definition sales_update_paid :: "ident \<Rightarrow> store \<Rightarrow> string option \<times> store" where
  "sales_update_paid saleId st =
     (case store_call st of
        (Some e, st') \<Rightarrow> (Some e, st')
      | (None, st') \<Rightarrow>
          (None, st'\<lparr>sales :=
             map (\<lambda>s. if s_id s = saleId then s\<lparr>s_payment_status := Paid\<rparr> else s)
                 (sales st')\<rparr>))"

definition debtors_select_all :: "store \<Rightarrow> (string + debtor list) \<times> store" where
  "debtors_select_all st =
     (case store_call st of
        (Some e, st') \<Rightarrow> (Inl e, st')
      | (None, st') \<Rightarrow> (Inr (debtors st'), st'))"

section \<open>Debt tracking\<close>

text \<open>
  \<open>markAsPaidMutation\<close>: the debtor update throws its error; the read-back of the
  debtor's \<open>sale_id\<close> keeps only \<open>data\<close>, so a failed read skips the sale update and
  the mutation still resolves; the sale update throws its error.
\<close>

definition markAsPaid :: "instant \<Rightarrow> ident \<Rightarrow> store \<Rightarrow> (error + unit) \<times> store" where
  "markAsPaid now debtorId st =
     (case debtors_update_resolved now debtorId st of
        (Some debtorError, st1) \<Rightarrow> (Inl (StoreError debtorError), st1)
      | (None, st1) \<Rightarrow>
          (case debtors_select_single debtorId st1 of
             (Inl _, st2) \<Rightarrow> (Inr (), st2)
           | (Inr debtor, st2) \<Rightarrow>
               (case sales_update_paid (d_sale_id debtor) st2 of
                  (Some saleError, st3) \<Rightarrow> (Inl (StoreError saleError), st3)
                | (None, st3) \<Rightarrow> (Inr (), st3))))"

text \<open>
  \<open>getStatusColor\<close>, with the clock read \<open>new Date()\<close> as the parameter \<open>now\<close>.
  \<open>Math.ceil\<close> of a quotient in \<open>(-1, 0]\<close> is \<open>-0\<close>, which is not below zero.
\<close>

definition daysUntilDue :: "instant \<Rightarrow> instant \<Rightarrow> int" where
  "daysUntilDue due now = \<lceil>real_of_int (due - now) / (1000 * 3600 * 24)\<rceil>"

definition getStatusColor :: "instant \<Rightarrow> instant \<Rightarrow> string" where
  "getStatusColor due now =
     (if daysUntilDue due now < 0 then ''text-red-600''
      else if daysUntilDue due now \<le> 7 then ''text-yellow-600''
      else ''text-green-600'')"

section \<open>Recording a sale\<close>

record form =
  customerName :: string
  customerEmail :: string
  customerPhone :: string
  selectedProducts :: "cart_line list"
  paymentStatus :: payment_status
  dueDate :: string

record toast =
  title :: string
  description :: string

text \<open>\<open>s || null\<close> on a string: the empty string is falsy.\<close>

definition or_null :: "string \<Rightarrow> string option" where
  "or_null s = (if s = [] then None else Some s)"

definition customers_select_by_name :: "string \<Rightarrow> store \<Rightarrow> (string + customer) \<times> store" where
  "customers_select_by_name name st =
     (case store_call st of
        (Some e, st') \<Rightarrow> (Inl e, st')
      | (None, st') \<Rightarrow> (single (filter (\<lambda>c. c_name c = name) (customers st')), st'))"

definition customers_insert ::
  "string \<Rightarrow> string option \<Rightarrow> string option \<Rightarrow> store \<Rightarrow> (string + customer) \<times> store" where
  "customers_insert name email phone st =
     (case store_call st of
        (Some e, st') \<Rightarrow> (Inl e, st')
      | (None, st') \<Rightarrow>
          (let row = \<lparr>c_id = next_id st', c_name = name, c_email = email, c_phone = phone\<rparr>
           in (Inr row, st'\<lparr>customers := customers st' @ [row], next_id := Suc (next_id st')\<rparr>)))"

text \<open>
  Modelled from the spec: the table definitions are not part of the sources; the spec
  says that \<open>saleDate\<close> defaults to the creation time, so the inserted row carries the
  instant of the insert.
\<close>

definition sales_insert ::
  "instant \<Rightarrow> ident \<Rightarrow> ident \<Rightarrow> real \<Rightarrow> real \<Rightarrow> payment_status \<Rightarrow> string option \<Rightarrow> store
     \<Rightarrow> (string + sale) \<times> store" where
  "sales_insert now customerId userId totalAmount totalCost status due st =
     (case store_call st of
        (Some e, st') \<Rightarrow> (Inl e, st')
      | (None, st') \<Rightarrow>
          (let row = \<lparr>s_id = next_id st', s_customer_id = customerId, s_user_id = userId,
                       s_total_amount = totalAmount, s_total_cost = totalCost,
                       s_payment_status = status, s_due_date = due, s_sale_date = now\<rparr>
           in (Inr row, st'\<lparr>sales := sales st' @ [row], next_id := Suc (next_id st')\<rparr>)))"

definition sale_items_insert :: "sale_item list \<Rightarrow> store \<Rightarrow> string option \<times> store" where
  "sale_items_insert rows st =
     (case store_call st of
        (Some e, st') \<Rightarrow> (Some e, st')
      | (None, st') \<Rightarrow> (None, st'\<lparr>sale_items := sale_items st' @ rows\<rparr>))"

definition products_update_stock :: "instant \<Rightarrow> ident \<Rightarrow> int \<Rightarrow> store \<Rightarrow> string option \<times> store" where
  "products_update_stock now productId stock st =
     (case store_call st of
        (Some e, st') \<Rightarrow> (Some e, st')
      | (None, st') \<Rightarrow>
          (None, st'\<lparr>products :=
             map (\<lambda>p. if p_id p = productId
                       then p\<lparr>p_stock_quantity := stock, p_updated_at := now\<rparr> else p)
                 (products st')\<rparr>))"

text \<open>
  The customer lookup keeps only \<open>data\<close>: every error of the lookup, the one of
  \<open>.single()\<close> finding no row included, leads to the insert of a new customer.
\<close>

definition resolve_customer :: "form \<Rightarrow> store \<Rightarrow> (string + ident) \<times> store" where
  "resolve_customer f st =
     (case customers_select_by_name (customerName f) st of
        (Inr existingCustomer, st1) \<Rightarrow> (Inr (c_id existingCustomer), st1)
      | (Inl _, st1) \<Rightarrow>
          (case customers_insert (customerName f) (or_null (customerEmail f))
                  (or_null (customerPhone f)) st1 of
             (Inl customerError, st2) \<Rightarrow> (Inl customerError, st2)
           | (Inr newCustomer, st2) \<Rightarrow> (Inr (c_id newCustomer), st2)))"

text \<open>
  The loop over the cart that writes the stock: each line writes the stock quantity
  copied into the cart line minus the line's quantity, and the first error ends the loop.
\<close>

fun update_stock :: "instant \<Rightarrow> cart_line list \<Rightarrow> store \<Rightarrow> string option \<times> store" where
  "update_stock now [] st = (None, st)"
| "update_stock now (product # rest) st =
     (case products_update_stock now (p_id product)
             (p_stock_quantity product - quantity product) st of
        (Some stockError, st') \<Rightarrow> (Some stockError, st')
      | (None, st') \<Rightarrow> update_stock now rest st')"

definition saleItems_of :: "ident \<Rightarrow> cart_line list \<Rightarrow> sale_item list" where
  "saleItems_of saleId cart =
     map (\<lambda>item. \<lparr>si_sale_id = saleId, si_product_id = p_id item,
                    si_quantity = quantity item, si_unit_price = sellingPrice item,
                    si_unit_cost = p_cost item\<rparr>) cart"

definition createSale :: "instant \<Rightarrow> form \<Rightarrow> store \<Rightarrow> (error + sale) \<times> store" where
  "createSale now f st =
     (case session st of
        None \<Rightarrow> (Inl NotAuthenticated, st)
      | Some user \<Rightarrow>
          (case resolve_customer f st of
             (Inl customerError, st1) \<Rightarrow> (Inl (StoreError customerError), st1)
           | (Inr customerId, st1) \<Rightarrow>
               (let totalAmount =
                      foldl (\<lambda>sum item. dadd sum (dmul (sellingPrice item) (of_int (quantity item)))) 0
                        (selectedProducts f);
                    totalCost =
                      foldl (\<lambda>sum item. dadd sum (dmul (p_cost item) (of_int (quantity item)))) 0
                        (selectedProducts f)
                in case sales_insert now customerId user totalAmount totalCost
                          (paymentStatus f) (or_null (dueDate f)) st1 of
                     (Inl saleError, st2) \<Rightarrow> (Inl (StoreError saleError), st2)
                   | (Inr sale, st2) \<Rightarrow>
                       (case sale_items_insert (saleItems_of (s_id sale) (selectedProducts f)) st2 of
                          (Some itemsError, st3) \<Rightarrow> (Inl (StoreError itemsError), st3)
                        | (None, st3) \<Rightarrow>
                            (case update_stock now (selectedProducts f) st3 of
                               (Some stockError, st4) \<Rightarrow> (Inl (StoreError stockError), st4)
                             | (None, st4) \<Rightarrow> (Inr sale, st4))))))"

text \<open>
  The cart. \<open>addProductToSale\<close> raises the quantity of the line that already holds
  the product (\<open>findIndex\<close> gives the first one) or appends a copy of the product row
  with quantity 1 and the default selling price; \<open>updateProductQuantity\<close> removes
  the line on a quantity that is not positive.
\<close>

fun bump_quantity :: "ident \<Rightarrow> cart_line list \<Rightarrow> cart_line list" where
  "bump_quantity x [] = []"
| "bump_quantity x (p # ps) =
     (if p_id p = x then p\<lparr>quantity := quantity p + 1\<rparr> # ps else p # bump_quantity x ps)"

definition addProductToSale :: "product \<Rightarrow> cart_line list \<Rightarrow> cart_line list" where
  "addProductToSale product selected =
     (if p_id product \<in> set (map p_id selected)
      then bump_quantity (p_id product) selected
      else selected @
        [\<lparr>p_id = p_id product, p_name = p_name product, p_cost = p_cost product,
          p_stock_quantity = p_stock_quantity product, p_is_active = p_is_active product,
          p_updated_at = p_updated_at product,
          quantity = 1, sellingPrice = dmul (p_cost product) 1.5\<rparr>])"

definition removeProductFromSale :: "ident \<Rightarrow> cart_line list \<Rightarrow> cart_line list" where
  "removeProductFromSale productId selected = filter (\<lambda>p. p_id p \<noteq> productId) selected"

definition updateProductQuantity :: "ident \<Rightarrow> int \<Rightarrow> cart_line list \<Rightarrow> cart_line list" where
  "updateProductQuantity productId q selected =
     (if q \<le> 0 then removeProductFromSale productId selected
      else map (\<lambda>p. if p_id p = productId then p\<lparr>quantity := q\<rparr> else p) selected)"

definition updateSellingPrice :: "ident \<Rightarrow> real \<Rightarrow> cart_line list \<Rightarrow> cart_line list" where
  "updateSellingPrice productId v selected =
     map (\<lambda>p. if p_id p = productId then p\<lparr>sellingPrice := v\<rparr> else p) selected"

fun join :: "string \<Rightarrow> string list \<Rightarrow> string" where
  "join sep [] = []"
| "join sep [x] = x"
| "join sep (x # y # ys) = x @ sep @ join sep (y # ys)"

text \<open>
  \<open>handleSubmit\<close>: the two checks on the form, each ending in a toast and no store
  call, then the mutation.
\<close>

definition handleSubmit :: "instant \<Rightarrow> form \<Rightarrow> store \<Rightarrow> (toast + (error + sale)) \<times> store" where
  "handleSubmit now f st =
     (if customerName f = [] \<or> length (selectedProducts f) = 0
      then (Inl \<lparr>title = ''Error'',
                 description = ''Please enter customer name and add at least one product''\<rparr>, st)
      else
        (let stockIssues = filter (\<lambda>p. quantity p > p_stock_quantity p) (selectedProducts f)
         in if length stockIssues > 0
            then (Inl \<lparr>title = ''Insufficient Stock'',
                       description = ''Not enough stock for: '' @ join '', '' (map p_name stockIssues)\<rparr>,
                  st)
            else (case createSale now f st of (r, st') \<Rightarrow> (Inr r, st'))))"

section \<open>Deleting a sale\<close>

definition sale_items_select_by_sale :: "ident \<Rightarrow> store \<Rightarrow> (string + sale_item list) \<times> store" where
  "sale_items_select_by_sale saleId st =
     (case store_call st of
        (Some e, st') \<Rightarrow> (Inl e, st')
      | (None, st') \<Rightarrow> (Inr (filter (\<lambda>i. si_sale_id i = saleId) (sale_items st')), st'))"

definition products_select_single :: "ident \<Rightarrow> store \<Rightarrow> (string + product) \<times> store" where
  "products_select_single productId st =
     (case store_call st of
        (Some e, st') \<Rightarrow> (Inl e, st')
      | (None, st') \<Rightarrow> (single (filter (\<lambda>p. p_id p = productId) (products st')), st'))"

text \<open>
  The delete removes the rows of \<open>sales\<close> with the identifier; what the database does
  to rows of other tables that refer to them is part of the table definitions, which
  the sources do not hold, and is left out.
\<close>

definition sales_delete :: "ident \<Rightarrow> store \<Rightarrow> string option \<times> store" where
  "sales_delete saleId st =
     (case store_call st of
        (Some e, st') \<Rightarrow> (Some e, st')
      | (None, st') \<Rightarrow> (None, st'\<lparr>sales := filter (\<lambda>s. s_id s \<noteq> saleId) (sales st')\<rparr>))"

text \<open>
  The loop that restores the stock reads each product and writes its stock plus the
  item's quantity. It keeps only \<open>data\<close> of the read and drops the result of the write.
\<close>

fun restore_stock :: "instant \<Rightarrow> sale_item list \<Rightarrow> store \<Rightarrow> store" where
  "restore_stock now [] st = st"
| "restore_stock now (item # rest) st =
     (case products_select_single (si_product_id item) st of
        (Inl _, st1) \<Rightarrow> restore_stock now rest st1
      | (Inr product, st1) \<Rightarrow>
          restore_stock now rest
            (snd (products_update_stock now (si_product_id item)
                    (p_stock_quantity product + si_quantity item) st1)))"

definition deleteSale :: "instant \<Rightarrow> ident \<Rightarrow> store \<Rightarrow> (error + unit) \<times> store" where
  "deleteSale now saleId st =
     (case sale_items_select_by_sale saleId st of
        (r, st1) \<Rightarrow>
          (let st2 = (case r of Inl _ \<Rightarrow> st1 | Inr saleItems \<Rightarrow> restore_stock now saleItems st1)
           in case sales_delete saleId st2 of
                (Some e, st3) \<Rightarrow> (Inl (StoreError e), st3)
              | (None, st3) \<Rightarrow> (Inr (), st3)))"

section \<open>Reporting\<close>

record debtor_stats =
  totalOutstanding :: real
  overdueDebtors :: nat
  totalResolved :: real
  activeDebtors :: nat

text \<open>
  The body of \<open>fetchDebtorStats\<close> after the read. \<open>allDebtors?.f(...) || 0\<close> is 0 when
  \<open>allDebtors\<close> is null; \<open>isAfter(now, due)\<close> is \<open>due < now\<close>.
\<close>

definition computeDebtorStats :: "instant \<Rightarrow> debtor list option \<Rightarrow> debtor_stats" where
  "computeDebtorStats now allDebtors =
     \<lparr>totalOutstanding =
        (case allDebtors of None \<Rightarrow> 0
         | Some ds \<Rightarrow> foldl (\<lambda>sum d. dadd sum (d_amount_owed d)) 0
                        (filter (\<lambda>d. \<not> d_is_resolved d) ds)),
      overdueDebtors =
        (case allDebtors of None \<Rightarrow> 0
         | Some ds \<Rightarrow> length (filter (\<lambda>d. \<not> d_is_resolved d \<and> d_due_date d < now) ds)),
      totalResolved =
        (case allDebtors of None \<Rightarrow> 0
         | Some ds \<Rightarrow> foldl (\<lambda>sum d. dadd sum (d_amount_owed d)) 0
                        (filter (\<lambda>d. d_is_resolved d) ds)),
      activeDebtors =
        (case allDebtors of None \<Rightarrow> 0
         | Some ds \<Rightarrow> length (filter (\<lambda>d. \<not> d_is_resolved d) ds))\<rparr>"

definition fetchDebtorStats :: "instant \<Rightarrow> store \<Rightarrow> (error + debtor_stats) \<times> store" where
  "fetchDebtorStats now st =
     (case debtors_select_all st of
        (Inl e, st') \<Rightarrow> (Inl (StoreError e), st')
      | (Inr allDebtors, st') \<Rightarrow> (Inr (computeDebtorStats now (Some allDebtors)), st'))"

record sales_metrics =
  m_totalRevenue :: real
  m_totalCost :: real
  m_totalProfit :: real
  m_salesCount :: nat

text \<open>\<open>.gte("sale_date", start).lte("sale_date", end)\<close>: both bounds belong to the range.\<close>

definition sales_select_range :: "instant \<Rightarrow> instant \<Rightarrow> store \<Rightarrow> (string + sale list) \<times> store" where
  "sales_select_range start end st =
     (case store_call st of
        (Some e, st') \<Rightarrow> (Inl e, st')
      | (None, st') \<Rightarrow>
          (Inr (filter (\<lambda>s. start \<le> s_sale_date s \<and> s_sale_date s \<le> end) (sales st')), st'))"

text \<open>
  The sales metrics of the dashboard and analysis queries. The read keeps only \<open>data\<close>,
  and \<open>salesData?.reduce(...) || 0\<close> is 0 when it is null.
\<close>

definition salesMetrics :: "instant \<Rightarrow> instant \<Rightarrow> store \<Rightarrow> sales_metrics \<times> store" where
  "salesMetrics start end st =
     (case sales_select_range start end st of
        (r, st') \<Rightarrow>
          (let salesData = (case r of Inl _ \<Rightarrow> None | Inr rows \<Rightarrow> Some rows);
               totalRevenue =
                 (case salesData of None \<Rightarrow> 0
                  | Some rows \<Rightarrow> foldl (\<lambda>sum sale. dadd sum (s_total_amount sale)) 0 rows);
               totalCost =
                 (case salesData of None \<Rightarrow> 0
                  | Some rows \<Rightarrow> foldl (\<lambda>sum sale. dadd sum (s_total_cost sale)) 0 rows)
           in (\<lparr>m_totalRevenue = totalRevenue, m_totalCost = totalCost,
                m_totalProfit = dsub totalRevenue totalCost,
                m_salesCount = (case salesData of None \<Rightarrow> 0 | Some rows \<Rightarrow> length rows)\<rparr>,
               st')))"

text \<open>The stock quantity the store holds for a product identifier, when one row has it.\<close>

definition stock_of :: "store \<Rightarrow> ident \<Rightarrow> int option" where
  "stock_of st productId =
     (case filter (\<lambda>p. p_id p = productId) (products st) of
        [p] \<Rightarrow> Some (p_stock_quantity p)
      | _ \<Rightarrow> None)"

section \<open>Auxiliary definitions for the proofs\<close>

text \<open>The row updates of \<open>markAsPaid\<close>, named.\<close>

definition resolve_row :: "instant \<Rightarrow> ident \<Rightarrow> debtor \<Rightarrow> debtor" where
  "resolve_row now debtorId d =
     (if d_id d = debtorId then d\<lparr>d_is_resolved := True, d_updated_at := now\<rparr> else d)"

definition pay_row :: "ident \<Rightarrow> sale \<Rightarrow> sale" where
  "pay_row saleId s = (if s_id s = saleId then s\<lparr>s_payment_status := Paid\<rparr> else s)"

text \<open>A store with one pending sale of two units of product 4 and its open debt.\<close>

definition pending_store :: store where
  "pending_store =
     \<lparr>customers = [\<lparr>c_id = 3, c_name = ''Ann'', c_email = None, c_phone = None\<rparr>],
      sales = [\<lparr>s_id = 10, s_customer_id = 3, s_user_id = 7, s_total_amount = 30,
                s_total_cost = 20, s_payment_status = Pending, s_due_date = Some ''2025-01-31'',
                s_sale_date = 1000\<rparr>],
      sale_items = [\<lparr>si_sale_id = 10, si_product_id = 4, si_quantity = 2, si_unit_price = 15,
                     si_unit_cost = 10\<rparr>],
      products = [\<lparr>p_id = 4, p_name = ''A'', p_cost = 10, p_stock_quantity = 3,
                   p_is_active = True, p_updated_at = 1000\<rparr>],
      debtors = [\<lparr>d_id = 1, d_sale_id = 10, d_amount_owed = 30, d_due_date = 9000,
                  d_is_resolved = False, d_updated_at = 1000\<rparr>],
      session = Some 7, next_id = 11, faults = []\<rparr>"

text \<open>
  Forms for the examples: a cart with two units of product 4 copied while its stock was 3;
  the same cart asking for five units; and the cart with a copy of the product made
  while its stock was still 5.
\<close>

definition example_form :: form where
  "example_form =
     \<lparr>customerName = ''Ann'', customerEmail = '''', customerPhone = '''',
      selectedProducts =
        [\<lparr>p_id = 4, p_name = ''A'', p_cost = 10, p_stock_quantity = 3, p_is_active = True,
          p_updated_at = 1000, quantity = 2, sellingPrice = 15\<rparr>],
      paymentStatus = Pending, dueDate = ''2025-02-28''\<rparr>"

definition oversold_form :: form where
  "oversold_form =
     example_form\<lparr>selectedProducts :=
        [\<lparr>p_id = 4, p_name = ''A'', p_cost = 10, p_stock_quantity = 3, p_is_active = True,
          p_updated_at = 1000, quantity = 5, sellingPrice = 15\<rparr>]\<rparr>"

definition stale_form :: form where
  "stale_form =
     example_form\<lparr>selectedProducts :=
        [\<lparr>p_id = 4, p_name = ''A'', p_cost = 10, p_stock_quantity = 5, p_is_active = True,
          p_updated_at = 500, quantity = 2, sellingPrice = 15\<rparr>]\<rparr>"

text \<open>The row update of \<open>products_update_stock\<close>, named.\<close>

definition set_stock :: "instant \<Rightarrow> ident \<Rightarrow> int \<Rightarrow> product \<Rightarrow> product" where
  "set_stock now productId stock p =
     (if p_id p = productId then p\<lparr>p_stock_quantity := stock, p_updated_at := now\<rparr> else p)"

text \<open>
  The number of store calls the restoring loop of \<open>deleteSale\<close> makes when its calls
  go through: a read for each item and a write for each item whose product the read finds.
\<close>

definition restore_calls :: "sale_item list \<Rightarrow> store \<Rightarrow> nat" where
  "restore_calls items st =
     (\<Sum>i\<leftarrow>items. if isl (single (filter (\<lambda>p. p_id p = si_product_id i) (products st)))
                 then 1 else 2)"

text \<open>
  The sum a \<open>reduce\<close> with \<open>+\<close> gives: the amounts added from the left, starting at
  0, each partial sum rounded to a double.
\<close>

definition double_sum :: "real list \<Rightarrow> real" where
  "double_sum xs = foldl dadd 0 xs"

text \<open>
  The doubles written \<open>0.1\<close>, \<open>0.2\<close> and \<open>0.30000000000000004\<close> in JavaScript.
\<close>

definition tenth :: real where
  "tenth = 3602879701896397 / 36028797018963968"

definition two_tenths :: real where
  "two_tenths = 3602879701896397 / 18014398509481984"

definition three_tenths_up :: real where
  "three_tenths_up = 5404319552844596 / 18014398509481984"

text \<open>
  A cart with three units of a product that costs 0.1 and is sold at 1; a cart that asks
  for four units on a copy of product 4 made while its stock was 5; a store with two
  sales of 0.1 and 0.2 and the two open debts for them.
\<close>

definition tenth_form :: form where
  "tenth_form =
     example_form\<lparr>selectedProducts :=
        [\<lparr>p_id = 4, p_name = ''A'', p_cost = tenth, p_stock_quantity = 3, p_is_active = True,
          p_updated_at = 1000, quantity = 3, sellingPrice = 1\<rparr>]\<rparr>"

definition stale_oversold_form :: form where
  "stale_oversold_form =
     example_form\<lparr>selectedProducts :=
        [\<lparr>p_id = 4, p_name = ''A'', p_cost = 10, p_stock_quantity = 5, p_is_active = True,
          p_updated_at = 500, quantity = 4, sellingPrice = 15\<rparr>]\<rparr>"

definition cents_store :: store where
  "cents_store =
     \<lparr>customers = [\<lparr>c_id = 3, c_name = ''Ann'', c_email = None, c_phone = None\<rparr>],
      sales = [\<lparr>s_id = 10, s_customer_id = 3, s_user_id = 7, s_total_amount = tenth,
                s_total_cost = 0, s_payment_status = Pending, s_due_date = Some ''2025-01-31'',
                s_sale_date = 500\<rparr>,
               \<lparr>s_id = 11, s_customer_id = 3, s_user_id = 7, s_total_amount = two_tenths,
                s_total_cost = 0, s_payment_status = Pending, s_due_date = Some ''2025-01-31'',
                s_sale_date = 600\<rparr>],
      sale_items = [],
      products = [],
      debtors = [\<lparr>d_id = 1, d_sale_id = 10, d_amount_owed = tenth, d_due_date = 9000,
                  d_is_resolved = False, d_updated_at = 500\<rparr>,
                 \<lparr>d_id = 2, d_sale_id = 11, d_amount_owed = two_tenths, d_due_date = 9000,
                  d_is_resolved = False, d_updated_at = 600\<rparr>],
      session = Some 7, next_id = 12, faults = []\<rparr>"

section \<open>Rounding to a double\<close>

lemma round_even_of_int [simp]: "round_even (of_int k) = k"
  by (simp add: round_even_def)

lemma round_even_zero [simp]: "round_even 0 = 0"
  using round_even_of_int [of 0] by simp

lemma to_double_zero [simp]: "to_double 0 = 0"
  by (simp add: to_double_def)

lemma to_double_exact:
  assumes "x * 2 ^ subnormal_bits / 2 ^ nat (bitlen \<lfloor>\<bar>x\<bar> * 2 ^ subnormal_bits\<rfloor> - 53) = of_int j"
  shows "to_double x = x"
proof -
  let ?s = "nat (bitlen \<lfloor>\<bar>x\<bar> * 2 ^ subnormal_bits\<rfloor> - 53)"
  have "to_double x = of_int (round_even (of_int j)) * 2 ^ ?s / 2 ^ subnormal_bits"
    unfolding to_double_def Let_def assms ..
  also have "\<dots> = of_int j * 2 ^ ?s / 2 ^ subnormal_bits"
    by simp
  also have "\<dots> = (x * 2 ^ subnormal_bits / 2 ^ ?s) * 2 ^ ?s / 2 ^ subnormal_bits"
    by (simp only: assms)
  also have "\<dots> = x"
    by simp
  finally show ?thesis .
qed

text \<open>A value \<open>m / 2 ^ e\<close> with a mantissa below \<open>2 ^ 53\<close> is a double: rounding keeps it.\<close>

lemma to_double_dyadic:
  assumes m: "\<bar>m\<bar> < 2 ^ 53" and e: "e \<le> subnormal_bits"
  shows "to_double (of_int m / 2 ^ e) = of_int m / 2 ^ e"
proof (cases "m = 0")
  case True
  then show ?thesis by simp
next
  case False
  then have pos: "0 < \<bar>m\<bar>" by simp
  define x where "x = real_of_int m / 2 ^ e"
  define d where "d = subnormal_bits - e"
  define s where "s = nat (bitlen \<lfloor>\<bar>x\<bar> * 2 ^ subnormal_bits\<rfloor> - 53)"
  have sc: "(2::real) ^ subnormal_bits = 2 ^ e * 2 ^ d"
    using e by (simp add: d_def flip: power_add)
  have xs: "x * 2 ^ subnormal_bits = of_int m * 2 ^ d"
    unfolding sc x_def by simp
  have ax: "\<bar>x\<bar> * 2 ^ subnormal_bits = of_int (\<bar>m\<bar> * 2 ^ d)"
    unfolding sc x_def by (simp add: abs_divide)
  have N: "\<lfloor>\<bar>x\<bar> * 2 ^ subnormal_bits\<rfloor> = \<bar>m\<bar> * 2 ^ d"
    unfolding ax by (rule floor_of_int)
  from m have up: "bitlen \<bar>m\<bar> \<le> 53"
    by (simp add: bitlen_le_iff_power)
  have sd: "s \<le> d"
    unfolding s_def N bitlen_pow2 [OF pos] using up by linarith
  have "(2::real) ^ d = 2 ^ (d - s) * 2 ^ s"
    using sd by (simp flip: power_add)
  then have "x * 2 ^ subnormal_bits / 2 ^ s = of_int (m * 2 ^ (d - s))"
    unfolding xs by simp
  then have "to_double x = x"
    unfolding s_def by (rule to_double_exact)
  then show ?thesis
    by (simp add: x_def)
qed

lemma to_double_of_int:
  assumes "\<bar>k\<bar> < 2 ^ 53"
  shows "to_double (of_int k) = of_int k"
  using to_double_dyadic [OF assms, of 0] by simp

lemma to_double_Ints:
  assumes "x \<in> \<int>" and "\<bar>x\<bar> < 2 ^ 53"
  shows "to_double x = x"
proof -
  from assms(1) obtain k where k: "x = of_int k"
    by (rule Ints_cases)
  from assms(2) have "real_of_int \<bar>k\<bar> < real_of_int (2 ^ 53)"
    unfolding k by simp
  then have "\<bar>k\<bar> < 2 ^ 53"
    by (simp only: of_int_less_iff)
  then show ?thesis
    unfolding k by (rule to_double_of_int)
qed

lemma to_double_numeral [simp]:
  "(numeral n :: int) < 2 ^ 53 \<Longrightarrow> to_double (numeral n) = numeral n"
  using to_double_of_int [of "numeral n"] by simp

lemma to_double_one [simp]: "to_double 1 = 1"
  using to_double_of_int [of 1] by simp

text \<open>
  Whole numbers below \<open>2 ^ 53\<close> in magnitude: sums, differences and products that stay
  below it are exact.
\<close>

lemma whole_number_arithmetic:
  assumes "\<bar>a + b\<bar> < 2 ^ 53" and "\<bar>a - b\<bar> < 2 ^ 53" and "\<bar>a * b\<bar> < 2 ^ 53"
  shows "dadd (of_int a) (of_int b) = of_int (a + b)"
    and "dsub (of_int a) (of_int b) = of_int (a - b)"
    and "dmul (of_int a) (of_int b) = of_int (a * b)"
  using to_double_of_int [OF assms(1)] to_double_of_int [OF assms(2)] to_double_of_int [OF assms(3)]
  by (simp_all add: dadd_def dsub_def dmul_def)

text \<open>A value whose mantissa has 54 bits loses its last bit to the rounding.\<close>

lemma to_double_54:
  assumes lo: "2 ^ 53 \<le> \<bar>m\<bar>" and hi: "\<bar>m\<bar> < 2 ^ 54" and e: "e \<le> subnormal_bits"
  shows "to_double (of_int m / 2 ^ e) = of_int (round_even (of_int m / 2)) * 2 / 2 ^ e"
proof -
  from lo have pos: "0 < \<bar>m\<bar>" by simp
  define x where "x = real_of_int m / 2 ^ e"
  define d where "d = subnormal_bits - e"
  have sc: "(2::real) ^ subnormal_bits = 2 ^ e * 2 ^ d"
    using e by (simp add: d_def flip: power_add)
  have ax: "\<bar>x\<bar> * 2 ^ subnormal_bits = of_int (\<bar>m\<bar> * 2 ^ d)"
    unfolding sc x_def by (simp add: abs_divide)
  have N: "\<lfloor>\<bar>x\<bar> * 2 ^ subnormal_bits\<rfloor> = \<bar>m\<bar> * 2 ^ d"
    unfolding ax by (rule floor_of_int)
  from hi have "bitlen \<bar>m\<bar> \<le> 54"
    by (simp add: bitlen_le_iff_power)
  moreover from lo have "54 \<le> bitlen \<bar>m\<bar>"
    by (simp add: bitlen_ge_iff_power)
  ultimately have b: "bitlen \<bar>m\<bar> = 54" by simp
  have s: "nat (bitlen \<lfloor>\<bar>x\<bar> * 2 ^ subnormal_bits\<rfloor> - 53) = Suc d"
    unfolding N bitlen_pow2 [OF pos] b by simp
  have q: "x * 2 ^ subnormal_bits / 2 ^ Suc d = of_int m / 2"
    unfolding sc x_def by simp
  have "to_double x = of_int (round_even (of_int m / 2)) * 2 ^ Suc d / 2 ^ subnormal_bits"
    unfolding to_double_def Let_def s q ..
  also have "\<dots> = of_int (round_even (of_int m / 2)) * 2 / 2 ^ e"
    unfolding sc by simp
  finally show ?thesis
    by (simp add: x_def)
qed

text \<open>\<open>0.1 + 0.2\<close> and \<open>0.1 * 3\<close> are both \<open>0.30000000000000004\<close>.\<close>

lemma to_double_tenth [simp]: "to_double tenth = tenth"
  using to_double_dyadic [of 3602879701896397 55] by (simp add: tenth_def subnormal_bits_def)

lemma to_double_two_tenths [simp]: "to_double two_tenths = two_tenths"
  using to_double_dyadic [of 3602879701896397 54] by (simp add: two_tenths_def subnormal_bits_def)

lemma to_double_three_tenths_up [simp]: "to_double three_tenths_up = three_tenths_up"
  using to_double_dyadic [of 5404319552844596 54]
  by (simp add: three_tenths_up_def subnormal_bits_def)

lemma to_double_three_tenths:
  "to_double (10808639105689191 / 36028797018963968) = three_tenths_up"
proof -
  have e: "(55::nat) \<le> subnormal_bits"
    by (simp add: subnormal_bits_def)
  have r: "round_even (real_of_int 10808639105689191 / 2) = 5404319552844596"
    by (simp add: round_even_def)
  from to_double_54 [of 10808639105689191 55, OF _ _ e] show ?thesis
    unfolding r by (simp add: three_tenths_up_def)
qed

lemma to_double_tenth_plus: "to_double (tenth + two_tenths) = three_tenths_up"
proof -
  have e: "tenth + two_tenths = 10808639105689191 / 36028797018963968"
    by (simp add: tenth_def two_tenths_def)
  show ?thesis
    unfolding e by (rule to_double_three_tenths)
qed

lemma to_double_tenth_times: "to_double (tenth * 3) = three_tenths_up"
proof -
  have e: "tenth * 3 = 10808639105689191 / 36028797018963968"
    by (simp add: tenth_def)
  show ?thesis
    unfolding e by (rule to_double_three_tenths)
qed

lemma three_tenths_up_not_exact:
  shows "three_tenths_up \<noteq> tenth + two_tenths" and "three_tenths_up \<noteq> tenth * 3"
  by (simp_all add: three_tenths_up_def tenth_def two_tenths_def)

text \<open>
  A sum of whole amounts whose magnitudes add up to less than \<open>2 ^ 53\<close> is exact: no
  partial sum is rounded.
\<close>

lemma foldl_dadd_exact:
  assumes "\<forall>x \<in> set xs. f x \<in> \<int>" and "a \<in> \<int>"
    and "\<bar>a\<bar> + (\<Sum>x\<leftarrow>xs. \<bar>f x\<bar>) < 2 ^ 53"
  shows "foldl (\<lambda>sum x. dadd sum (f x)) a xs = a + (\<Sum>x\<leftarrow>xs. f x)"
  using assms
proof (induction xs arbitrary: a)
  case Nil
  then show ?case by simp
next
  case (Cons x xs)
  have nn: "0 \<le> (\<Sum>x\<leftarrow>xs. \<bar>f x\<bar>)"
    by (rule sum_list_nonneg) auto
  from Cons.prems have i: "a + f x \<in> \<int>"
    by simp
  from Cons.prems(3) nn have b: "\<bar>a + f x\<bar> < 2 ^ 53"
    by simp
  have step: "dadd a (f x) = a + f x"
    unfolding dadd_def by (rule to_double_Ints [OF i b])
  from Cons.prems(3) have "\<bar>a + f x\<bar> + (\<Sum>x\<leftarrow>xs. \<bar>f x\<bar>) < 2 ^ 53"
    by simp
  with Cons.IH [of "a + f x"] Cons.prems(1) i
  have "foldl (\<lambda>sum x. dadd sum (f x)) (a + f x) xs = a + f x + (\<Sum>x\<leftarrow>xs. f x)"
    by simp
  then show ?case
    by (simp add: step)
qed

lemma foldl_dadd_double_sum:
  "foldl (\<lambda>sum x. dadd sum (f x)) 0 xs = double_sum (map f xs)"
  by (simp add: double_sum_def foldl_map)

lemma double_sum_exact:
  assumes "\<forall>x \<in> set xs. x \<in> \<int>" and "(\<Sum>x\<leftarrow>xs. \<bar>x\<bar>) < 2 ^ 53"
  shows "double_sum xs = sum_list xs"
  using foldl_dadd_exact [of xs "\<lambda>x. x" 0] assms by (simp add: double_sum_def)


section \<open>Due-date classification\<close>

lemma daysUntilDue_le: "daysUntilDue due now \<le> k \<longleftrightarrow> due - now \<le> k * 86400000"
proof -
  have "daysUntilDue due now \<le> k \<longleftrightarrow> real_of_int (due - now) / 86400000 \<le> of_int k"
    by (simp add: daysUntilDue_def ceiling_le_iff)
  also have "\<dots> \<longleftrightarrow> real_of_int (due - now) \<le> of_int k * 86400000"
    by (simp add: divide_le_eq)
  also have "\<dots> \<longleftrightarrow> real_of_int (due - now) \<le> real_of_int (k * 86400000)"
    by simp
  also have "\<dots> \<longleftrightarrow> due - now \<le> k * 86400000"
    by (rule of_int_le_iff)
  finally show ?thesis .
qed

text \<open>
  C5 (as the code has it): days-until-due is the ceiling of the difference in days, that
  is the least \<open>k\<close> with \<open>due - now \<le> k\<close> days; a due date equal to now gives 0 and is
  not red; the red (overdue) class is taken exactly when the due date lies a full day or
  more in the past, so a due date one millisecond in the past is yellow, with 0 days.
\<close>

theorem classify_by_whole_days:
  "(daysUntilDue due now = k \<longleftrightarrow>
      (k - 1) * 86400000 < due - now \<and> due - now \<le> k * 86400000)
   \<and> daysUntilDue now now = 0
   \<and> getStatusColor now now \<noteq> ''text-red-600''
   \<and> (getStatusColor due now = ''text-red-600'' \<longleftrightarrow> due + 86400000 \<le> now)
   \<and> daysUntilDue (now - 1) now = 0
   \<and> getStatusColor (now - 1) now = ''text-yellow-600''"
proof -
  have le: "\<And>j. daysUntilDue due now \<le> j \<longleftrightarrow> due - now \<le> j * 86400000"
    by (rule daysUntilDue_le)
  have a: "daysUntilDue due now = k \<longleftrightarrow>
      (k - 1) * 86400000 < due - now \<and> due - now \<le> k * 86400000"
  proof
    assume "daysUntilDue due now = k"
    then have "daysUntilDue due now \<le> k" and "\<not> daysUntilDue due now \<le> k - 1"
      by simp_all
    then show "(k - 1) * 86400000 < due - now \<and> due - now \<le> k * 86400000"
      unfolding le by simp
  next
    assume "(k - 1) * 86400000 < due - now \<and> due - now \<le> k * 86400000"
    then have "daysUntilDue due now \<le> k" and "\<not> daysUntilDue due now \<le> k - 1"
      unfolding le by simp_all
    then show "daysUntilDue due now = k" by simp
  qed
  have b: "daysUntilDue now now = 0"
    by (simp add: daysUntilDue_def)
  have c: "getStatusColor now now \<noteq> ''text-red-600''"
    by (simp add: getStatusColor_def b)
  have "daysUntilDue due now < 0 \<longleftrightarrow> daysUntilDue due now \<le> - 1"
    by auto
  also have "\<dots> \<longleftrightarrow> due + 86400000 \<le> now"
    unfolding le by auto
  finally have lt0: "daysUntilDue due now < 0 \<longleftrightarrow> due + 86400000 \<le> now" .
  have d: "getStatusColor due now = ''text-red-600'' \<longleftrightarrow> due + 86400000 \<le> now"
    by (simp add: getStatusColor_def lt0)
  have "daysUntilDue (now - 1) now \<le> 0" and "\<not> daysUntilDue (now - 1) now \<le> - 1"
    unfolding daysUntilDue_le by simp_all
  then have e: "daysUntilDue (now - 1) now = 0"
    by simp
  have f: "getStatusColor (now - 1) now = ''text-yellow-600''"
    by (simp add: getStatusColor_def e)
  from a b c d e f show ?thesis by blast
qed

theorem classify_by_whole_days_witness:
  "daysUntilDue 1700000000000 1700000000000 = 0
   \<and> getStatusColor 1700086400000 1700172800000 = ''text-red-600''
   \<and> getStatusColor 1699999999999 1700000000000 = ''text-yellow-600''"
  using classify_by_whole_days [of 1700086400000 1700172800000 0]
    classify_by_whole_days [of 0 1700000000000 0]
  by simp

theorem one_ms_past_not_overdue_counterexample:
  "(1699999999999::int) < 1700000000000
   \<and> getStatusColor 1699999999999 1700000000000 \<noteq> ''text-red-600''"
  by (simp add: getStatusColor_def daysUntilDue_def)

section \<open>Marking a debt as paid\<close>

lemma store_call_nofault: "faults st = [] \<Longrightarrow> store_call st = (None, st)"
  by (simp add: store_call_def)

lemma d_id_resolve_row [simp]: "d_id (resolve_row now x d) = d_id d"
  by (simp add: resolve_row_def)

lemma d_sale_id_resolve_row [simp]: "d_sale_id (resolve_row now x d) = d_sale_id d"
  by (simp add: resolve_row_def)

lemma resolve_row_twice [simp]: "resolve_row t2 x (resolve_row t1 x d) = resolve_row t2 x d"
  by (simp add: resolve_row_def)

lemma pay_row_twice [simp]: "pay_row x (pay_row x s) = pay_row x s"
  by (simp add: pay_row_def)

lemma filter_resolved_rows:
  "filter (\<lambda>d. d_id d = x) (map (resolve_row now y) ds) =
     map (resolve_row now y) (filter (\<lambda>d. d_id d = x) ds)"
  by (induction ds) simp_all

lemma resolve_row_fold:
  "(\<lambda>d. if d_id d = x then d\<lparr>d_is_resolved := True, d_updated_at := now\<rparr> else d) =
     resolve_row now x"
  by (rule ext) (simp add: resolve_row_def)

lemma pay_row_fold:
  "(\<lambda>s. if s_id s = x then s\<lparr>s_payment_status := Paid\<rparr> else s) = pay_row x"
  by (rule ext) (simp add: pay_row_def)

lemma single_map: "single (map f xs) = map_sum id f (single xs)"
  by (auto simp: single_def split: list.splits)

lemma markAsPaid_nofault:
  assumes "faults st = []"
  shows "markAsPaid now x st =
     (Inr (),
      case single (filter (\<lambda>d. d_id d = x) (debtors st)) of
        Inr d \<Rightarrow> st\<lparr>debtors := map (resolve_row now x) (debtors st),
                   sales := map (pay_row (d_sale_id d)) (sales st)\<rparr>
      | Inl _ \<Rightarrow> st\<lparr>debtors := map (resolve_row now x) (debtors st)\<rparr>)"
proof -
  have c: "\<And>s. faults s = [] \<Longrightarrow> store_call s = (None, s)"
    by (simp add: store_call_def)
  show ?thesis
    using assms
    by (cases "single (filter (\<lambda>d. d_id d = x) (debtors st))")
      (simp_all add: markAsPaid_def debtors_update_resolved_def debtors_select_single_def
        sales_update_paid_def c resolve_row_fold pay_row_fold filter_resolved_rows single_map)
qed


text \<open>
  \<open>markAsPaid\<close> has no check of \<open>is_resolved\<close>. On a store whose calls all go
  through it succeeds on every debtor, an already resolved one included; a second run
  succeeds and gives the state that a single run at the later time gives; against the
  state after the first run it changes nothing but the \<open>updated_at\<close> of the debtor, and
  when the debtor exists the final state has it resolved and its sale paid.
\<close>

theorem markAsPaid_idempotent:
  assumes "faults st = []"
  shows "fst (markAsPaid t1 x st) = Inr ()
     \<and> fst (markAsPaid t2 x (snd (markAsPaid t1 x st))) = Inr ()
     \<and> markAsPaid t2 x (snd (markAsPaid t1 x st)) = markAsPaid t2 x st
     \<and> sales (snd (markAsPaid t2 x (snd (markAsPaid t1 x st)))) = sales (snd (markAsPaid t1 x st))
     \<and> debtors (snd (markAsPaid t2 x (snd (markAsPaid t1 x st)))) =
         map (\<lambda>d. if d_id d = x then d\<lparr>d_updated_at := t2\<rparr> else d)
           (debtors (snd (markAsPaid t1 x st)))
     \<and> (\<forall>d. filter (\<lambda>r. d_id r = x) (debtors st) = [d] \<longrightarrow>
           map d_is_resolved
             (filter (\<lambda>r. d_id r = x) (debtors (snd (markAsPaid t2 x (snd (markAsPaid t1 x st)))))) = [True]
         \<and> (\<forall>s \<in> set (sales (snd (markAsPaid t2 x (snd (markAsPaid t1 x st))))).
               s_id s = d_sale_id d \<longrightarrow> s_payment_status s = Paid))"
proof -
  let ?once = "snd (markAsPaid t1 x st)"
  let ?sel = "single (filter (\<lambda>d. d_id d = x) (debtors st))"
  have once: "markAsPaid t1 x st =
     (Inr (), case ?sel of
        Inr d \<Rightarrow> st\<lparr>debtors := map (resolve_row t1 x) (debtors st),
                   sales := map (pay_row (d_sale_id d)) (sales st)\<rparr>
      | Inl _ \<Rightarrow> st\<lparr>debtors := map (resolve_row t1 x) (debtors st)\<rparr>)"
    by (rule markAsPaid_nofault [OF assms])
  have f1: "faults ?once = []"
    using assms by (simp add: once split: sum.splits)
  have d1: "debtors ?once = map (resolve_row t1 x) (debtors st)"
    by (simp add: once split: sum.splits)
  have sel1: "single (filter (\<lambda>d. d_id d = x) (debtors ?once)) = map_sum id (resolve_row t1 x) ?sel"
    by (simp add: d1 filter_resolved_rows single_map)
  have twice: "markAsPaid t2 x ?once = markAsPaid t2 x st"
    using assms
    by (cases ?sel) (simp_all add: markAsPaid_nofault filter_resolved_rows single_map comp_def)
  have a: "fst (markAsPaid t1 x st) = Inr ()"
    by (simp add: once)
  have b: "fst (markAsPaid t2 x ?once) = Inr ()"
    by (simp add: markAsPaid_nofault [OF f1])
  have c: "sales (snd (markAsPaid t2 x ?once)) = sales ?once"
    unfolding twice by (simp add: markAsPaid_nofault [OF assms] split: sum.splits)
  have upd: "(\<lambda>d. if d_id d = x then d\<lparr>d_updated_at := t2\<rparr> else d) \<circ> resolve_row t1 x = resolve_row t2 x"
    by (rule ext) (simp add: resolve_row_def)
  have d: "debtors (snd (markAsPaid t2 x ?once)) =
         map (\<lambda>d. if d_id d = x then d\<lparr>d_updated_at := t2\<rparr> else d) (debtors ?once)"
    unfolding twice d1 by (simp add: markAsPaid_nofault [OF assms] upd split: sum.splits)
  have e: "filter (\<lambda>r. d_id r = x) (debtors st) = [d] \<Longrightarrow>
           map d_is_resolved (filter (\<lambda>r. d_id r = x) (debtors (snd (markAsPaid t2 x ?once)))) = [True]
         \<and> (\<forall>s \<in> set (sales (snd (markAsPaid t2 x ?once))).
               s_id s = d_sale_id d \<longrightarrow> s_payment_status s = Paid)" for d
  proof -
    assume h: "filter (\<lambda>r. d_id r = x) (debtors st) = [d]"
    then have "d \<in> set (filter (\<lambda>r. d_id r = x) (debtors st))" by simp
    then have dx: "d_id d = x" by simp
    have s: "?sel = Inr d" by (simp add: h single_def)
    show ?thesis
      unfolding twice
      by (auto simp: markAsPaid_nofault [OF assms] s filter_resolved_rows h resolve_row_def dx pay_row_def single_def)
  qed
  from a b twice c d e show ?thesis by blast
qed

theorem markAsPaid_idempotent_witness:
  "faults pending_store = []
   \<and> fst (markAsPaid 7000 1 (snd (markAsPaid 5000 1 pending_store))) = Inr ()
   \<and> map d_is_resolved (debtors (snd (markAsPaid 5000 1 pending_store))) = [True]
   \<and> markAsPaid 7000 1 (snd (markAsPaid 5000 1 pending_store)) = markAsPaid 7000 1 pending_store
   \<and> map s_payment_status (sales (snd (markAsPaid 7000 1 (snd (markAsPaid 5000 1 pending_store))))) = [Paid]"
proof -
  have f: "faults pending_store = []"
    by (simp add: pending_store_def)
  have r: "map d_is_resolved (debtors (snd (markAsPaid 5000 1 pending_store))) = [True]"
    by (simp add: markAsPaid_nofault single_def resolve_row_def pending_store_def)
  have p: "map s_payment_status (sales (snd (markAsPaid 5000 1 pending_store))) = [Paid]"
    by (simp add: markAsPaid_nofault single_def pay_row_def pending_store_def)
  note t = markAsPaid_idempotent [OF f, of 5000 1 7000]
  from t have t1: "fst (markAsPaid 7000 1 (snd (markAsPaid 5000 1 pending_store))) = Inr ()"
    by blast
  from t have t2: "markAsPaid 7000 1 (snd (markAsPaid 5000 1 pending_store)) =
      markAsPaid 7000 1 pending_store"
    by blast
  from t have "sales (snd (markAsPaid 7000 1 (snd (markAsPaid 5000 1 pending_store)))) =
      sales (snd (markAsPaid 5000 1 pending_store))"
    by blast
  with p have t3: "map s_payment_status
      (sales (snd (markAsPaid 7000 1 (snd (markAsPaid 5000 1 pending_store))))) = [Paid]"
    by simp
  from f t1 r t2 t3 show ?thesis
    by blast
qed

text \<open>
  C1: a run in which the debtor update goes through and the read-back of the debtor's
  \<open>sale_id\<close> fails completes successfully with the debtor resolved and the sale still
  pending.
\<close>

theorem markAsPaid_failed_read_leaves_sale_pending:
  "fst (markAsPaid 5000 1 (pending_store\<lparr>faults := [None, Some ''Failed to fetch'']\<rparr>)) = Inr ()
   \<and> map d_is_resolved
       (debtors (snd (markAsPaid 5000 1 (pending_store\<lparr>faults := [None, Some ''Failed to fetch'']\<rparr>)))) = [True]
   \<and> map s_payment_status
       (sales (snd (markAsPaid 5000 1 (pending_store\<lparr>faults := [None, Some ''Failed to fetch'']\<rparr>)))) = [Pending]"
  by (simp add: markAsPaid_def debtors_update_resolved_def debtors_select_single_def
      sales_update_paid_def store_call_def pending_store_def)

text \<open>
  C9: a first run in which the read-back of the debtor's \<open>sale_id\<close> fails completes
  successfully with the sale still pending; a second run on the debtor, by then resolved,
  completes successfully too and leaves the sale paid. Two runs do not leave the state
  that one run leaves.
\<close>

theorem markAsPaid_second_run_differs_after_failed_read:
  "fst (markAsPaid 5000 1 (pending_store\<lparr>faults := [None, Some ''Failed to fetch'']\<rparr>)) = Inr ()
   \<and> map d_is_resolved
       (debtors (snd (markAsPaid 5000 1 (pending_store\<lparr>faults := [None, Some ''Failed to fetch'']\<rparr>)))) = [True]
   \<and> map s_payment_status
       (sales (snd (markAsPaid 5000 1 (pending_store\<lparr>faults := [None, Some ''Failed to fetch'']\<rparr>)))) = [Pending]
   \<and> fst (markAsPaid 7000 1
         (snd (markAsPaid 5000 1 (pending_store\<lparr>faults := [None, Some ''Failed to fetch'']\<rparr>)))) = Inr ()
   \<and> map s_payment_status
       (sales (snd (markAsPaid 7000 1
         (snd (markAsPaid 5000 1 (pending_store\<lparr>faults := [None, Some ''Failed to fetch'']\<rparr>)))))) = [Paid]"
  by (simp add: markAsPaid_def debtors_update_resolved_def debtors_select_single_def
      sales_update_paid_def store_call_def single_def pending_store_def)

section \<open>Reporting: debtor statistics and sales metrics\<close>

lemma sum_list_abs_filter_le:
  "(\<Sum>x\<leftarrow>filter P xs. \<bar>f x\<bar>) \<le> (\<Sum>x\<leftarrow>xs. \<bar>f x :: real\<bar>)"
  by (induction xs) auto

lemma sum_list_Ints: "\<forall>x \<in> set xs. f x \<in> \<int> \<Longrightarrow> (\<Sum>x\<leftarrow>xs. f x :: real) \<in> \<int>"
  by (induction xs) auto

lemma abs_sum_list_le: "\<bar>\<Sum>x\<leftarrow>xs. f x :: real\<bar> \<le> (\<Sum>x\<leftarrow>xs. \<bar>f x\<bar>)"
  by (induction xs) auto

lemma double_sum_filter_exact:
  assumes "\<forall>x \<in> set xs. f x \<in> \<int>" and "(\<Sum>x\<leftarrow>xs. \<bar>f x\<bar>) < 2 ^ 53"
  shows "double_sum (map f (filter P xs)) = (\<Sum>x\<leftarrow>filter P xs. f x)"
proof -
  from assms(1) have i: "\<forall>x \<in> set (filter P xs). f x \<in> \<int>"
    by simp
  from sum_list_abs_filter_le [of f P xs] assms(2)
  have b: "\<bar>0\<bar> + (\<Sum>x\<leftarrow>filter P xs. \<bar>f x\<bar>) < 2 ^ 53"
    by simp
  from foldl_dadd_exact [OF i _ b] show ?thesis
    by (simp add: foldl_dadd_double_sum)
qed

text \<open>
  C7 (as the code has it): for every list of debtor rows the statistics are: the
  outstanding total, the amounts owed by the unresolved debtors, whatever their dates,
  added from the left in double precision; the resolved total, the same over the
  resolved ones; the overdue count, the number of unresolved debtors whose due date is
  strictly before the instant of the call. When the amounts are whole numbers whose
  magnitudes add up to less than \<open>2 ^ 53\<close> the two totals are the exact sums. On no
  rows all are zero, and \<open>fetchDebtorStats\<close> returns these statistics of the debtors
  table when its read goes through.
\<close>

theorem debtor_stats_totals:
  "computeDebtorStats now (Some ds) =
     \<lparr>totalOutstanding = double_sum (map d_amount_owed (filter (\<lambda>d. \<not> d_is_resolved d) ds)),
      overdueDebtors = length (filter (\<lambda>d. \<not> d_is_resolved d \<and> d_due_date d < now) ds),
      totalResolved = double_sum (map d_amount_owed (filter d_is_resolved ds)),
      activeDebtors = length (filter (\<lambda>d. \<not> d_is_resolved d) ds)\<rparr>
   \<and> ((\<forall>d \<in> set ds. d_amount_owed d \<in> \<int>) \<and> (\<Sum>d\<leftarrow>ds. \<bar>d_amount_owed d\<bar>) < 2 ^ 53 \<longrightarrow>
        totalOutstanding (computeDebtorStats now (Some ds)) =
          (\<Sum>d\<leftarrow>filter (\<lambda>d. \<not> d_is_resolved d) ds. d_amount_owed d)
      \<and> totalResolved (computeDebtorStats now (Some ds)) =
          (\<Sum>d\<leftarrow>filter d_is_resolved ds. d_amount_owed d))
   \<and> computeDebtorStats now (Some []) =
       \<lparr>totalOutstanding = 0, overdueDebtors = 0, totalResolved = 0, activeDebtors = 0\<rparr>
   \<and> (faults st = [] \<longrightarrow>
        fetchDebtorStats now st = (Inr (computeDebtorStats now (Some (debtors st))), st))"
proof (intro conjI impI)
  show c: "computeDebtorStats now (Some ds) =
     \<lparr>totalOutstanding = double_sum (map d_amount_owed (filter (\<lambda>d. \<not> d_is_resolved d) ds)),
      overdueDebtors = length (filter (\<lambda>d. \<not> d_is_resolved d \<and> d_due_date d < now) ds),
      totalResolved = double_sum (map d_amount_owed (filter d_is_resolved ds)),
      activeDebtors = length (filter (\<lambda>d. \<not> d_is_resolved d) ds)\<rparr>"
    by (simp add: computeDebtorStats_def foldl_dadd_double_sum)
  show "computeDebtorStats now (Some []) =
       \<lparr>totalOutstanding = 0, overdueDebtors = 0, totalResolved = 0, activeDebtors = 0\<rparr>"
    by (simp add: computeDebtorStats_def)
  show "fetchDebtorStats now st = (Inr (computeDebtorStats now (Some (debtors st))), st)"
    if "faults st = []"
    using that by (simp add: fetchDebtorStats_def debtors_select_all_def store_call_def)
  assume a: "(\<forall>d \<in> set ds. d_amount_owed d \<in> \<int>) \<and> (\<Sum>d\<leftarrow>ds. \<bar>d_amount_owed d\<bar>) < 2 ^ 53"
  then have i: "\<forall>d \<in> set ds. d_amount_owed d \<in> \<int>"
    and b: "(\<Sum>d\<leftarrow>ds. \<bar>d_amount_owed d\<bar>) < 2 ^ 53"
    by simp_all
  show "totalOutstanding (computeDebtorStats now (Some ds)) =
          (\<Sum>d\<leftarrow>filter (\<lambda>d. \<not> d_is_resolved d) ds. d_amount_owed d)"
    by (simp add: c double_sum_filter_exact [OF i b])
  show "totalResolved (computeDebtorStats now (Some ds)) =
          (\<Sum>d\<leftarrow>filter d_is_resolved ds. d_amount_owed d)"
    by (simp add: c double_sum_filter_exact [OF i b])
qed

theorem debtor_stats_totals_witness:
  "faults pending_store = []
   \<and> map d_amount_owed (debtors pending_store) = [30] \<and> (30::real) \<in> \<int>
   \<and> (\<Sum>d\<leftarrow>debtors pending_store. \<bar>d_amount_owed d\<bar>) < 2 ^ 53
   \<and> fetchDebtorStats 9001 pending_store =
       (Inr \<lparr>totalOutstanding = 30, overdueDebtors = 1, totalResolved = 0, activeDebtors = 1\<rparr>,
        pending_store)
   \<and> totalOutstanding (computeDebtorStats 9000 (Some (debtors pending_store))) = 30
   \<and> overdueDebtors (computeDebtorStats 9000 (Some (debtors pending_store))) = 0"
proof -
  have f: "faults pending_store = []"
    by (simp add: pending_store_def)
  have d: "debtors pending_store = [\<lparr>d_id = 1, d_sale_id = 10, d_amount_owed = 30, d_due_date = 9000,
                  d_is_resolved = False, d_updated_at = 1000\<rparr>]"
    by (simp add: pending_store_def)
  have s: "double_sum [30] = 30" "double_sum [] = 0"
    by (simp_all add: double_sum_def dadd_def)
  show ?thesis
    using debtor_stats_totals [of 9001 "debtors pending_store" pending_store]
      debtor_stats_totals [of 9000 "debtors pending_store" pending_store] f
    by (simp add: d s)
qed

theorem debtor_stats_rounded_sum_counterexample:
  "fst (fetchDebtorStats 0 cents_store) =
     Inr \<lparr>totalOutstanding = three_tenths_up, overdueDebtors = 0, totalResolved = 0,
          activeDebtors = 2\<rparr>
   \<and> (\<Sum>d\<leftarrow>filter (\<lambda>d. \<not> d_is_resolved d) (debtors cents_store). d_amount_owed d) =
       tenth + two_tenths
   \<and> three_tenths_up \<noteq> tenth + two_tenths"
  by (simp add: fetchDebtorStats_def debtors_select_all_def store_call_def computeDebtorStats_def
      cents_store_def dadd_def to_double_tenth_plus three_tenths_up_not_exact)

text \<open>
  C8 (as the code has it): revenue is the total amounts and cost the total costs, each
  added from the left in double precision, and profit is revenue minus cost rounded to a
  double, over exactly the sales whose sale date lies in the closed interval from
  \<open>start\<close> to \<open>end\<close>, both bounds included. When the amounts and costs are whole
  numbers whose magnitudes add up to less than \<open>2 ^ 53\<close>, revenue and cost are the
  exact sums and profit is their exact difference.
\<close>

theorem salesMetrics_closed_interval:
  assumes "faults st = []"
  shows "salesMetrics start end st =
     (\<lparr>m_totalRevenue =
         double_sum (map s_total_amount
           (filter (\<lambda>s. start \<le> s_sale_date s \<and> s_sale_date s \<le> end) (sales st))),
       m_totalCost =
         double_sum (map s_total_cost
           (filter (\<lambda>s. start \<le> s_sale_date s \<and> s_sale_date s \<le> end) (sales st))),
       m_totalProfit =
         dsub
           (double_sum (map s_total_amount
              (filter (\<lambda>s. start \<le> s_sale_date s \<and> s_sale_date s \<le> end) (sales st))))
           (double_sum (map s_total_cost
              (filter (\<lambda>s. start \<le> s_sale_date s \<and> s_sale_date s \<le> end) (sales st)))),
       m_salesCount =
         length (filter (\<lambda>s. start \<le> s_sale_date s \<and> s_sale_date s \<le> end) (sales st))\<rparr>, st)
    \<and> ((\<forall>s \<in> set (sales st). s_total_amount s \<in> \<int> \<and> s_total_cost s \<in> \<int>)
        \<and> (\<Sum>s\<leftarrow>sales st. \<bar>s_total_amount s\<bar>) + (\<Sum>s\<leftarrow>sales st. \<bar>s_total_cost s\<bar>) < 2 ^ 53 \<longrightarrow>
          m_totalRevenue (fst (salesMetrics start end st)) =
            (\<Sum>s\<leftarrow>filter (\<lambda>s. start \<le> s_sale_date s \<and> s_sale_date s \<le> end) (sales st).
               s_total_amount s)
        \<and> m_totalCost (fst (salesMetrics start end st)) =
            (\<Sum>s\<leftarrow>filter (\<lambda>s. start \<le> s_sale_date s \<and> s_sale_date s \<le> end) (sales st).
               s_total_cost s)
        \<and> m_totalProfit (fst (salesMetrics start end st)) =
            (\<Sum>s\<leftarrow>filter (\<lambda>s. start \<le> s_sale_date s \<and> s_sale_date s \<le> end) (sales st).
               s_total_amount s)
            - (\<Sum>s\<leftarrow>filter (\<lambda>s. start \<le> s_sale_date s \<and> s_sale_date s \<le> end) (sales st).
               s_total_cost s))"
proof (intro conjI impI)
  let ?in = "\<lambda>s. start \<le> s_sale_date s \<and> s_sale_date s \<le> end"
  let ?rows = "filter ?in (sales st)"
  show m: "salesMetrics start end st =
     (\<lparr>m_totalRevenue = double_sum (map s_total_amount ?rows),
       m_totalCost = double_sum (map s_total_cost ?rows),
       m_totalProfit = dsub (double_sum (map s_total_amount ?rows)) (double_sum (map s_total_cost ?rows)),
       m_salesCount = length ?rows\<rparr>, st)"
    using assms
    by (simp add: salesMetrics_def sales_select_range_def store_call_def foldl_dadd_double_sum Let_def)
  assume a: "(\<forall>s \<in> set (sales st). s_total_amount s \<in> \<int> \<and> s_total_cost s \<in> \<int>)
        \<and> (\<Sum>s\<leftarrow>sales st. \<bar>s_total_amount s\<bar>) + (\<Sum>s\<leftarrow>sales st. \<bar>s_total_cost s\<bar>) < 2 ^ 53"
  have na: "0 \<le> (\<Sum>s\<leftarrow>sales st. \<bar>s_total_amount s\<bar>)" and nc: "0 \<le> (\<Sum>s\<leftarrow>sales st. \<bar>s_total_cost s\<bar>)"
    by (rule sum_list_nonneg, auto)+
  from a have ia: "\<forall>s \<in> set (sales st). s_total_amount s \<in> \<int>"
    and ic: "\<forall>s \<in> set (sales st). s_total_cost s \<in> \<int>"
    by simp_all
  from a na nc have ba: "(\<Sum>s\<leftarrow>sales st. \<bar>s_total_amount s\<bar>) < 2 ^ 53"
    and bc: "(\<Sum>s\<leftarrow>sales st. \<bar>s_total_cost s\<bar>) < 2 ^ 53"
    by linarith+
  note ra = double_sum_filter_exact [OF ia ba, of ?in]
  note rc = double_sum_filter_exact [OF ic bc, of ?in]
  show r: "m_totalRevenue (fst (salesMetrics start end st)) = (\<Sum>s\<leftarrow>?rows. s_total_amount s)"
    by (simp add: m ra)
  show c: "m_totalCost (fst (salesMetrics start end st)) = (\<Sum>s\<leftarrow>?rows. s_total_cost s)"
    by (simp add: m rc)
  let ?R = "\<Sum>s\<leftarrow>?rows. s_total_amount s" and ?C = "\<Sum>s\<leftarrow>?rows. s_total_cost s"
  from ia have "\<forall>s \<in> set ?rows. s_total_amount s \<in> \<int>" by simp
  then have iR: "?R \<in> \<int>" by (rule sum_list_Ints)
  from ic have "\<forall>s \<in> set ?rows. s_total_cost s \<in> \<int>" by simp
  then have iC: "?C \<in> \<int>" by (rule sum_list_Ints)
  have "\<bar>?R - ?C\<bar> \<le> \<bar>?R\<bar> + \<bar>?C\<bar>" by simp
  also have "\<dots> \<le> (\<Sum>s\<leftarrow>?rows. \<bar>s_total_amount s\<bar>) + (\<Sum>s\<leftarrow>?rows. \<bar>s_total_cost s\<bar>)"
    using abs_sum_list_le [of s_total_amount ?rows] abs_sum_list_le [of s_total_cost ?rows]
    by linarith
  also have "\<dots> \<le> (\<Sum>s\<leftarrow>sales st. \<bar>s_total_amount s\<bar>) + (\<Sum>s\<leftarrow>sales st. \<bar>s_total_cost s\<bar>)"
    using sum_list_abs_filter_le [of s_total_amount ?in "sales st"]
      sum_list_abs_filter_le [of s_total_cost ?in "sales st"]
    by linarith
  also from a have "\<dots> < 2 ^ 53" by simp
  finally have "\<bar>?R - ?C\<bar> < 2 ^ 53" .
  with iR iC have "to_double (?R - ?C) = ?R - ?C"
    by (intro to_double_Ints) auto
  then show "m_totalProfit (fst (salesMetrics start end st)) = ?R - ?C"
    by (simp add: m ra rc dsub_def)
qed

theorem salesMetrics_closed_interval_witness:
  "faults pending_store = []
   \<and> map s_total_amount (sales pending_store) = [30] \<and> (30::real) \<in> \<int>
   \<and> map s_total_cost (sales pending_store) = [20] \<and> (20::real) \<in> \<int>
   \<and> (\<Sum>s\<leftarrow>sales pending_store. \<bar>s_total_amount s\<bar>)
       + (\<Sum>s\<leftarrow>sales pending_store. \<bar>s_total_cost s\<bar>) < 2 ^ 53
   \<and> salesMetrics 0 1000 pending_store =
       (\<lparr>m_totalRevenue = 30, m_totalCost = 20, m_totalProfit = 10, m_salesCount = 1\<rparr>, pending_store)"
proof -
  have f: "faults pending_store = []"
    by (simp add: pending_store_def)
  have s: "double_sum [30] = 30" "double_sum [20] = 20" "dsub 30 20 = 10"
    by (simp_all add: double_sum_def dadd_def dsub_def)
  show ?thesis
    using salesMetrics_closed_interval [OF f, of 0 1000] f
    by (simp add: pending_store_def s)
qed

theorem salesMetrics_half_open_counterexample:
  "m_totalRevenue (fst (salesMetrics 0 1000 pending_store)) = 30
   \<and> (\<Sum>s\<leftarrow>filter (\<lambda>s. 0 \<le> s_sale_date s \<and> s_sale_date s < 1000) (sales pending_store).
         s_total_amount s) = 0
   \<and> m_totalRevenue (fst (salesMetrics 0 1000 cents_store)) = three_tenths_up
   \<and> (\<Sum>s\<leftarrow>filter (\<lambda>s. 0 \<le> s_sale_date s \<and> s_sale_date s \<le> 1000) (sales cents_store).
         s_total_amount s) = tenth + two_tenths
   \<and> three_tenths_up \<noteq> tenth + two_tenths"
  by (simp add: salesMetrics_def sales_select_range_def store_call_def pending_store_def
      cents_store_def Let_def dadd_def to_double_tenth_plus three_tenths_up_not_exact)

section \<open>Recording a sale: what is written\<close>

lemma store_call_frame:
  "store_call st = (r, st') \<Longrightarrow>
     customers st' = customers st \<and> sales st' = sales st \<and> sale_items st' = sale_items st \<and>
     products st' = products st \<and> debtors st' = debtors st \<and> session st' = session st \<and>
     next_id st' = next_id st"
  by (auto simp: store_call_def split: list.splits)

lemma resolve_customer_frame:
  "resolve_customer f st = (r, st') \<Longrightarrow>
     sales st' = sales st \<and> sale_items st' = sale_items st \<and> products st' = products st \<and>
     debtors st' = debtors st \<and> session st' = session st"
  by (auto simp: resolve_customer_def customers_select_by_name_def customers_insert_def Let_def
      store_call_def split: prod.splits sum.splits option.splits list.splits)

lemma sales_insert_frame:
  "sales_insert now c u a k ps dd st = (r, st') \<Longrightarrow>
     sale_items st' = sale_items st \<and> products st' = products st \<and> debtors st' = debtors st"
  by (auto simp: sales_insert_def Let_def store_call_def split: prod.splits option.splits list.splits)

lemma sales_insert_ok:
  "sales_insert now c u a k ps dd st = (Inr sale, st') \<Longrightarrow>
     sales st' = sales st @ [sale] \<and> s_total_amount sale = a \<and> s_total_cost sale = k \<and>
     s_payment_status sale = ps \<and> s_customer_id sale = c \<and>
     sale_items st' = sale_items st \<and> products st' = products st"
  by (auto simp: sales_insert_def Let_def store_call_def split: prod.splits option.splits list.splits)

lemma sale_items_insert_frame:
  "sale_items_insert rows st = (r, st') \<Longrightarrow>
     sales st' = sales st \<and> products st' = products st \<and> debtors st' = debtors st"
  by (auto simp: sale_items_insert_def store_call_def split: prod.splits option.splits list.splits)

lemma sale_items_insert_ok:
  "sale_items_insert rows st = (None, st') \<Longrightarrow>
     sale_items st' = sale_items st @ rows \<and> sales st' = sales st \<and> products st' = products st"
  by (auto simp: sale_items_insert_def store_call_def split: prod.splits option.splits list.splits)

lemma products_update_stock_frame:
  "products_update_stock now x v st = (r, st') \<Longrightarrow>
     sales st' = sales st \<and> sale_items st' = sale_items st \<and> debtors st' = debtors st"
  by (auto simp: products_update_stock_def store_call_def split: prod.splits option.splits list.splits)

lemma update_stock_frame:
  "update_stock now ps st = (r, st') \<Longrightarrow>
     sales st' = sales st \<and> sale_items st' = sale_items st \<and> debtors st' = debtors st"
proof (induction ps arbitrary: st)
  case Nil
  then show ?case by simp
next
  case (Cons p ps)
  obtain r1 st1 where u: "products_update_stock now (p_id p) (p_stock_quantity p - quantity p) st = (r1, st1)"
    by (cases "products_update_stock now (p_id p) (p_stock_quantity p - quantity p) st")
  note fr = products_update_stock_frame [OF u]
  show ?case
  proof (cases r1)
    case None
    with Cons.prems u have "update_stock now ps st1 = (r, st')" by simp
    from Cons.IH [OF this] fr show ?thesis by simp
  next
    case (Some e)
    with Cons.prems u have "st' = st1" by simp
    with fr show ?thesis by simp
  qed
qed

lemma createSale_debtors: "debtors (snd (createSale now f st)) = debtors st"
  by (auto simp: createSale_def Let_def split: option.splits prod.splits sum.splits
      dest!: resolve_customer_frame sales_insert_frame sale_items_insert_frame update_stock_frame)

lemma createSale_ok:
  assumes "createSale now f st = (Inr sale, st')"
  shows "s_total_amount sale = foldl (\<lambda>sum item. dadd sum (dmul (sellingPrice item) (of_int (quantity item)))) 0 (selectedProducts f)"
    and "s_total_cost sale = foldl (\<lambda>sum item. dadd sum (dmul (p_cost item) (of_int (quantity item)))) 0 (selectedProducts f)"
    and "s_payment_status sale = paymentStatus f"
    and "sales st' = sales st @ [sale]"
    and "sale_items st' = sale_items st @ saleItems_of (s_id sale) (selectedProducts f)"
  using assms
  by (auto simp: createSale_def Let_def split: option.splits prod.splits sum.splits
      dest!: resolve_customer_frame sales_insert_ok sale_items_insert_ok update_stock_frame)

lemma update_stock_nofault:
  "faults st = [] \<Longrightarrow> fst (update_stock now ps st) = None \<and> faults (snd (update_stock now ps st)) = []"
  by (induction ps arbitrary: st) (simp_all add: products_update_stock_def store_call_def)

lemma resolve_customer_nofault:
  "faults st = [] \<Longrightarrow> \<exists>c st'. resolve_customer f st = (Inr c, st') \<and> faults st' = []"
  by (cases "single (filter (\<lambda>c. c_name c = customerName f) (customers st))")
    (simp_all add: resolve_customer_def customers_select_by_name_def customers_insert_def
      store_call_def Let_def)

lemma createSale_nofault:
  assumes "faults st = []" and "session st = Some u"
  shows "\<exists>sale st'. createSale now f st = (Inr sale, st')"
proof -
  from resolve_customer_nofault [OF assms(1)] obtain c st1
    where r: "resolve_customer f st = (Inr c, st1)" and f1: "faults st1 = []"
    by blast
  obtain sale st2 where i: "sales_insert now c u
      (foldl (\<lambda>sum item. dadd sum (dmul (sellingPrice item) (of_int (quantity item)))) 0 (selectedProducts f))
      (foldl (\<lambda>sum item. dadd sum (dmul (p_cost item) (of_int (quantity item)))) 0 (selectedProducts f))
      (paymentStatus f) (or_null (dueDate f)) st1 = (Inr sale, st2)" and f2: "faults st2 = []"
    using f1 by (simp add: sales_insert_def store_call_def Let_def)
  obtain st3 where j: "sale_items_insert (saleItems_of (s_id sale) (selectedProducts f)) st2 = (None, st3)"
    and f3: "faults st3 = []"
    using f2 by (simp add: sale_items_insert_def store_call_def)
  from update_stock_nofault [OF f3, of now "selectedProducts f"]
  obtain st4 where k: "update_stock now (selectedProducts f) st3 = (None, st4)"
    by (cases "update_stock now (selectedProducts f) st3") simp
  show ?thesis
    by (simp add: createSale_def assms(2) r i j k Let_def)
qed

lemma line_totals_exact:
  assumes "\<forall>l \<in> set cart. price l \<in> \<int>"
    and "(\<Sum>l\<leftarrow>cart. \<bar>price l * of_int (quantity l)\<bar>) < 2 ^ 53"
  shows "foldl (\<lambda>sum item. dadd sum (dmul (price item) (of_int (quantity item)))) 0 cart =
     (\<Sum>l\<leftarrow>cart. price l * of_int (quantity l))"
proof -
  have i: "\<forall>l \<in> set cart. price l * of_int (quantity l) \<in> \<int>"
    using assms(1) by simp
  have m: "dmul (price l) (of_int (quantity l)) = price l * of_int (quantity l)"
    if l: "l \<in> set cart" for l
  proof -
    have "\<bar>price l * of_int (quantity l)\<bar> \<le> (\<Sum>l\<leftarrow>cart. \<bar>price l * of_int (quantity l)\<bar>)"
      using l by (intro member_le_sum_list) auto
    with assms(2) have "\<bar>price l * of_int (quantity l)\<bar> < 2 ^ 53"
      by simp
    with i l show ?thesis
      unfolding dmul_def by (intro to_double_Ints) auto
  qed
  have "foldl (\<lambda>sum item. dadd sum (dmul (price item) (of_int (quantity item)))) 0 cart =
      double_sum (map (\<lambda>l. dmul (price l) (of_int (quantity l))) cart)"
    by (rule foldl_dadd_double_sum)
  also have "map (\<lambda>l. dmul (price l) (of_int (quantity l))) cart =
      map (\<lambda>l. price l * of_int (quantity l)) cart"
    using m by simp
  also have "double_sum (map (\<lambda>l. price l * of_int (quantity l)) cart) =
      (\<Sum>l\<leftarrow>cart. price l * of_int (quantity l))"
    using double_sum_filter_exact [OF i assms(2), of "\<lambda>_. True"] by simp
  finally show ?thesis .
qed

text \<open>
  C3 (as the code has it): a sale that \<open>createSale\<close> returns has as total amount the
  line products selling price times quantity, each rounded to a double, added from the
  left in double precision, and as total cost the same with the cost; when the prices
  (the costs) are whole numbers and the magnitudes of the line products add up to less
  than \<open>2 ^ 53\<close>, the total is the exact sum. The sale is the row appended to the
  sales, and the sale items appended are one per cart line, in the order of the cart,
  each with the line's product, quantity, selling price and cost. With a signed-in user
  and store calls that go through, \<open>createSale\<close> does return a sale.
\<close>

theorem createSale_totals_and_items:
  "(faults st = [] \<and> session st \<noteq> None \<longrightarrow> (\<exists>sale st'. createSale now f st = (Inr sale, st')))
   \<and> (createSale now f st = (Inr sale, st') \<longrightarrow>
        s_total_amount sale =
          double_sum (map (\<lambda>l. dmul (sellingPrice l) (of_int (quantity l))) (selectedProducts f))
      \<and> s_total_cost sale =
          double_sum (map (\<lambda>l. dmul (p_cost l) (of_int (quantity l))) (selectedProducts f))
      \<and> ((\<forall>l \<in> set (selectedProducts f). sellingPrice l \<in> \<int>)
          \<and> (\<Sum>l\<leftarrow>selectedProducts f. \<bar>sellingPrice l * of_int (quantity l)\<bar>) < 2 ^ 53 \<longrightarrow>
            s_total_amount sale = (\<Sum>l\<leftarrow>selectedProducts f. sellingPrice l * of_int (quantity l)))
      \<and> ((\<forall>l \<in> set (selectedProducts f). p_cost l \<in> \<int>)
          \<and> (\<Sum>l\<leftarrow>selectedProducts f. \<bar>p_cost l * of_int (quantity l)\<bar>) < 2 ^ 53 \<longrightarrow>
            s_total_cost sale = (\<Sum>l\<leftarrow>selectedProducts f. p_cost l * of_int (quantity l)))
      \<and> sales st' = sales st @ [sale]
      \<and> sale_items st' = sale_items st @
           map (\<lambda>l. \<lparr>si_sale_id = s_id sale, si_product_id = p_id l, si_quantity = quantity l,
                      si_unit_price = sellingPrice l, si_unit_cost = p_cost l\<rparr>) (selectedProducts f)
      \<and> length (sale_items st') = length (sale_items st) + length (selectedProducts f))"
proof (intro conjI impI)
  assume "faults st = [] \<and> session st \<noteq> None"
  then show "\<exists>sale st'. createSale now f st = (Inr sale, st')"
    using createSale_nofault [of st _ now f] by auto
next
  assume a: "createSale now f st = (Inr sale, st')"
  from createSale_ok(1) [OF a]
  show "s_total_amount sale =
      double_sum (map (\<lambda>l. dmul (sellingPrice l) (of_int (quantity l))) (selectedProducts f))"
    by (simp add: foldl_dadd_double_sum)
  from createSale_ok(2) [OF a]
  show "s_total_cost sale =
      double_sum (map (\<lambda>l. dmul (p_cost l) (of_int (quantity l))) (selectedProducts f))"
    by (simp add: foldl_dadd_double_sum)
  show "sales st' = sales st @ [sale]"
    by (rule createSale_ok(4) [OF a])
  show items: "sale_items st' = sale_items st @
           map (\<lambda>l. \<lparr>si_sale_id = s_id sale, si_product_id = p_id l, si_quantity = quantity l,
                      si_unit_price = sellingPrice l, si_unit_cost = p_cost l\<rparr>) (selectedProducts f)"
    using createSale_ok(5) [OF a] by (simp add: saleItems_of_def)
  show "length (sale_items st') = length (sale_items st) + length (selectedProducts f)"
    by (simp add: items)
next
  assume a: "createSale now f st = (Inr sale, st')"
    and e: "(\<forall>l \<in> set (selectedProducts f). sellingPrice l \<in> \<int>)
          \<and> (\<Sum>l\<leftarrow>selectedProducts f. \<bar>sellingPrice l * of_int (quantity l)\<bar>) < 2 ^ 53"
  from e line_totals_exact [of "selectedProducts f" sellingPrice] createSale_ok(1) [OF a]
  show "s_total_amount sale = (\<Sum>l\<leftarrow>selectedProducts f. sellingPrice l * of_int (quantity l))"
    by simp
next
  assume a: "createSale now f st = (Inr sale, st')"
    and e: "(\<forall>l \<in> set (selectedProducts f). p_cost l \<in> \<int>)
          \<and> (\<Sum>l\<leftarrow>selectedProducts f. \<bar>p_cost l * of_int (quantity l)\<bar>) < 2 ^ 53"
  from e line_totals_exact [of "selectedProducts f" p_cost] createSale_ok(2) [OF a]
  show "s_total_cost sale = (\<Sum>l\<leftarrow>selectedProducts f. p_cost l * of_int (quantity l))"
    by simp
qed

lemma createSale_example:
  "createSale 2000 example_form pending_store =
     (Inr \<lparr>s_id = 11, s_customer_id = 3, s_user_id = 7, s_total_amount = 30, s_total_cost = 20,
           s_payment_status = Pending, s_due_date = Some ''2025-02-28'', s_sale_date = 2000\<rparr>,
      pending_store
        \<lparr>sales := sales pending_store @
           [\<lparr>s_id = 11, s_customer_id = 3, s_user_id = 7, s_total_amount = 30, s_total_cost = 20,
             s_payment_status = Pending, s_due_date = Some ''2025-02-28'', s_sale_date = 2000\<rparr>],
         sale_items := sale_items pending_store @
           [\<lparr>si_sale_id = 11, si_product_id = 4, si_quantity = 2, si_unit_price = 15,
             si_unit_cost = 10\<rparr>],
         products := [\<lparr>p_id = 4, p_name = ''A'', p_cost = 10, p_stock_quantity = 1,
                       p_is_active = True, p_updated_at = 2000\<rparr>],
         next_id := 12\<rparr>)"
  by (simp add: createSale_def resolve_customer_def customers_select_by_name_def single_def
      sales_insert_def sale_items_insert_def saleItems_of_def products_update_stock_def
      store_call_def or_null_def Let_def example_form_def pending_store_def dadd_def dmul_def)

theorem createSale_totals_and_items_witness:
  "createSale 2000 example_form pending_store =
     (Inr \<lparr>s_id = 11, s_customer_id = 3, s_user_id = 7, s_total_amount = 30, s_total_cost = 20,
           s_payment_status = Pending, s_due_date = Some ''2025-02-28'', s_sale_date = 2000\<rparr>,
      snd (createSale 2000 example_form pending_store))
   \<and> map sellingPrice (selectedProducts example_form) = [15] \<and> (15::real) \<in> \<int>
   \<and> map p_cost (selectedProducts example_form) = [10] \<and> (10::real) \<in> \<int>
   \<and> (\<Sum>l\<leftarrow>selectedProducts example_form. \<bar>sellingPrice l * of_int (quantity l)\<bar>) < 2 ^ 53
   \<and> (\<Sum>l\<leftarrow>selectedProducts example_form. \<bar>p_cost l * of_int (quantity l)\<bar>) < 2 ^ 53
   \<and> (\<Sum>l\<leftarrow>selectedProducts example_form. sellingPrice l * of_int (quantity l)) = 30
   \<and> (\<Sum>l\<leftarrow>selectedProducts example_form. p_cost l * of_int (quantity l)) = 20
   \<and> sale_items (snd (createSale 2000 example_form pending_store)) =
       sale_items pending_store @
         [\<lparr>si_sale_id = 11, si_product_id = 4, si_quantity = 2, si_unit_price = 15, si_unit_cost = 10\<rparr>]"
proof -
  have e: "createSale 2000 example_form pending_store =
     (Inr \<lparr>s_id = 11, s_customer_id = 3, s_user_id = 7, s_total_amount = 30, s_total_cost = 20,
           s_payment_status = Pending, s_due_date = Some ''2025-02-28'', s_sale_date = 2000\<rparr>,
      snd (createSale 2000 example_form pending_store))"
    by (simp add: createSale_example)
  have c: "selectedProducts example_form =
        [\<lparr>p_id = 4, p_name = ''A'', p_cost = 10, p_stock_quantity = 3, p_is_active = True,
          p_updated_at = 1000, quantity = 2, sellingPrice = 15\<rparr>]"
    by (simp add: example_form_def)
  from createSale_totals_and_items [of pending_store 2000 example_form _ "snd (createSale 2000 example_form pending_store)"] e
  show ?thesis
    by (simp add: c)
qed

theorem createSale_rounded_total_counterexample:
  "fst (createSale 2000 tenth_form pending_store) =
     Inr \<lparr>s_id = 11, s_customer_id = 3, s_user_id = 7, s_total_amount = 3,
          s_total_cost = three_tenths_up, s_payment_status = Pending,
          s_due_date = Some ''2025-02-28'', s_sale_date = 2000\<rparr>
   \<and> (\<Sum>l\<leftarrow>selectedProducts tenth_form. p_cost l * of_int (quantity l)) = tenth * 3
   \<and> three_tenths_up \<noteq> tenth * 3"
  using three_tenths_up_not_exact(2)
  by (simp add: createSale_def resolve_customer_def customers_select_by_name_def single_def
      sales_insert_def sale_items_insert_def saleItems_of_def products_update_stock_def
      store_call_def or_null_def Let_def tenth_form_def example_form_def pending_store_def
      dadd_def dmul_def to_double_tenth_times)

text \<open>
  C10: \<open>createSale\<close> leaves the debtors table as it is, whatever the payment status of
  the form and whatever store calls fail; so does a whole submission.
\<close>

theorem createSale_keeps_debtors:
  "debtors (snd (createSale now f st)) = debtors st
   \<and> debtors (snd (handleSubmit now f st)) = debtors st"
  using createSale_debtors [of now f st]
  by (cases "createSale now f st") (simp add: handleSubmit_def Let_def)

theorem createSale_keeps_debtors_witness:
  "paymentStatus example_form = Pending
   \<and> debtors (snd (createSale 2000 example_form pending_store)) = debtors pending_store
   \<and> sales (snd (createSale 2000 example_form pending_store)) \<noteq> sales pending_store"
  using createSale_keeps_debtors [of 2000 example_form pending_store]
  by (simp add: createSale_example) (simp add: example_form_def)

section \<open>Stock after a sale and after its deletion\<close>

text \<open>
  Every cart built by the cart operations from the empty cart holds each product at most
  once and only positive quantities.
\<close>

lemma map_p_id_bump [simp]: "map p_id (bump_quantity x ps) = map p_id ps"
  by (induction ps) simp_all

lemma cart_products_distinct:
  assumes "distinct (map p_id selected)"
  shows "distinct (map p_id (addProductToSale product selected))"
    and "distinct (map p_id (removeProductFromSale x selected))"
    and "distinct (map p_id (updateProductQuantity x q selected))"
    and "distinct (map p_id (updateSellingPrice x v selected))"
proof -
  show "distinct (map p_id (addProductToSale product selected))"
    using assms by (auto simp: addProductToSale_def)
  show r: "distinct (map p_id (removeProductFromSale x selected))"
    using assms by (simp add: removeProductFromSale_def distinct_map_filter)
  have m: "map p_id (map (\<lambda>p. if p_id p = x then p\<lparr>quantity := q\<rparr> else p) selected) = map p_id selected"
    by (induction selected) simp_all
  show "distinct (map p_id (updateProductQuantity x q selected))"
    using assms r m by (simp add: updateProductQuantity_def del: map_map)
  have "map p_id (updateSellingPrice x v selected) = map p_id selected"
    unfolding updateSellingPrice_def by (induction selected) simp_all
  with assms show "distinct (map p_id (updateSellingPrice x v selected))"
    by simp
qed

lemma bump_quantity_positive:
  "\<forall>l \<in> set ps. 0 < quantity l \<Longrightarrow> \<forall>l \<in> set (bump_quantity x ps). 0 < quantity l"
  by (induction ps) auto

lemma cart_quantities_positive:
  assumes "\<forall>l \<in> set selected. 0 < quantity l"
  shows "\<forall>l \<in> set (addProductToSale product selected). 0 < quantity l"
    and "\<forall>l \<in> set (removeProductFromSale x selected). 0 < quantity l"
    and "\<forall>l \<in> set (updateProductQuantity x q selected). 0 < quantity l"
    and "\<forall>l \<in> set (updateSellingPrice x v selected). 0 < quantity l"
  using assms bump_quantity_positive [of selected "p_id product"]
  by (auto simp: addProductToSale_def removeProductFromSale_def updateProductQuantity_def
      updateSellingPrice_def)

lemma example_form_cart:
  "addProductToSale
     \<lparr>p_id = 4, p_name = ''A'', p_cost = 10, p_stock_quantity = 3, p_is_active = True,
      p_updated_at = 1000\<rparr>
     (addProductToSale
        \<lparr>p_id = 4, p_name = ''A'', p_cost = 10, p_stock_quantity = 3, p_is_active = True,
         p_updated_at = 1000\<rparr> []) =
   selectedProducts example_form"
  by (simp add: addProductToSale_def example_form_def dmul_def)

lemma set_stock_fold:
  "(\<lambda>p. if p_id p = x then p\<lparr>p_stock_quantity := v, p_updated_at := now\<rparr> else p) =
     set_stock now x v"
  by (rule ext) (simp add: set_stock_def)

lemma p_id_set_stock [simp]: "p_id (set_stock now x v p) = p_id p"
  by (simp add: set_stock_def)

lemma filter_set_stock:
  "filter (\<lambda>p. p_id p = y) (map (set_stock now x v) ps) =
     map (set_stock now x v) (filter (\<lambda>p. p_id p = y) ps)"
  by (induction ps) simp_all

lemma stock_of_cong: "products a = products b \<Longrightarrow> stock_of a x = stock_of b x"
  by (simp add: stock_of_def)

lemma stock_of_Some_iff:
  "stock_of st x = Some S \<longleftrightarrow>
     (\<exists>p. filter (\<lambda>p. p_id p = x) (products st) = [p] \<and> p_id p = x \<and> p_stock_quantity p = S)"
proof
  assume "stock_of st x = Some S"
  then obtain p where f: "filter (\<lambda>p. p_id p = x) (products st) = [p]" and s: "p_stock_quantity p = S"
    by (auto simp: stock_of_def split: list.splits)
  from f have "p \<in> set (filter (\<lambda>p. p_id p = x) (products st))" by simp
  then have "p_id p = x" by simp
  with f s show "\<exists>p. filter (\<lambda>p. p_id p = x) (products st) = [p] \<and> p_id p = x \<and> p_stock_quantity p = S"
    by blast
next
  assume "\<exists>p. filter (\<lambda>p. p_id p = x) (products st) = [p] \<and> p_id p = x \<and> p_stock_quantity p = S"
  then show "stock_of st x = Some S"
    by (auto simp: stock_of_def)
qed

lemma stock_of_set_stock:
  "stock_of (st\<lparr>products := map (set_stock now x v) (products st)\<rparr>) y =
     (if y = x then map_option (\<lambda>_. v) (stock_of st y) else stock_of st y)"
proof (cases "filter (\<lambda>p. p_id p = y) (products st)")
  case Nil
  then show ?thesis
    by (auto simp: stock_of_def filter_set_stock)
next
  case (Cons p ps)
  then have "p \<in> set (filter (\<lambda>p. p_id p = y) (products st))" by simp
  then have "p_id p = y" by simp
  with Cons show ?thesis
    by (cases ps) (auto simp: stock_of_def filter_set_stock set_stock_def)
qed

lemma products_update_stock_ok:
  "products_update_stock now x v st = (None, st') \<Longrightarrow>
     stock_of st' y = (if y = x then map_option (\<lambda>_. v) (stock_of st y) else stock_of st y)"
proof -
  assume a: "products_update_stock now x v st = (None, st')"
  obtain r st0 where c: "store_call st = (r, st0)"
    by (cases "store_call st")
  from store_call_frame [OF c] have p: "products st0 = products st" by simp
  from a c have st': "st' = st0\<lparr>products := map (set_stock now x v) (products st0)\<rparr>"
    by (cases r) (simp_all add: products_update_stock_def set_stock_fold)
  show ?thesis
    unfolding st' stock_of_set_stock using stock_of_cong [OF p] by simp
qed

lemma update_stock_other:
  "update_stock now ps st = (None, st') \<Longrightarrow> y \<notin> p_id ` set ps \<Longrightarrow> stock_of st' y = stock_of st y"
proof (induction ps arbitrary: st)
  case Nil
  then show ?case by simp
next
  case (Cons p ps)
  obtain r1 st1 where u: "products_update_stock now (p_id p) (p_stock_quantity p - quantity p) st = (r1, st1)"
    by (cases "products_update_stock now (p_id p) (p_stock_quantity p - quantity p) st")
  with Cons.prems(1) have r1: "r1 = None" and rest: "update_stock now ps st1 = (None, st')"
    by (cases r1; simp)+
  from Cons.prems(2) have ne: "y \<noteq> p_id p" and notin: "y \<notin> p_id ` set ps"
    by auto
  from products_update_stock_ok [OF u [unfolded r1], of y] ne
  have "stock_of st1 y = stock_of st y" by simp
  with Cons.IH [OF rest notin] show ?case by simp
qed

lemma update_stock_line:
  "update_stock now ps st = (None, st') \<Longrightarrow> distinct (map p_id ps) \<Longrightarrow> l \<in> set ps \<Longrightarrow>
     stock_of st' (p_id l) = map_option (\<lambda>_. p_stock_quantity l - quantity l) (stock_of st (p_id l))"
proof (induction ps arbitrary: st)
  case Nil
  then show ?case by simp
next
  case (Cons p ps)
  obtain r1 st1 where u: "products_update_stock now (p_id p) (p_stock_quantity p - quantity p) st = (r1, st1)"
    by (cases "products_update_stock now (p_id p) (p_stock_quantity p - quantity p) st")
  with Cons.prems(1) have r1: "r1 = None" and rest: "update_stock now ps st1 = (None, st')"
    by (cases r1; simp)+
  note step = products_update_stock_ok [OF u [unfolded r1]]
  from Cons.prems(2) have notin: "p_id p \<notin> p_id ` set ps" and dist: "distinct (map p_id ps)"
    by auto
  show ?case
  proof (cases "l = p")
    case True
    from update_stock_other [OF rest notin] step [of "p_id p"] True show ?thesis
      by simp
  next
    case False
    with Cons.prems(3) have l: "l \<in> set ps" by simp
    with notin have "p_id l \<noteq> p_id p" by (metis imageI)
    with Cons.IH [OF rest dist l] step [of "p_id l"] show ?thesis
      by simp
  qed
qed

lemma createSale_stock_step:
  assumes "createSale now f st = (Inr sale, st')"
  shows "\<exists>st3. products st3 = products st \<and> update_stock now (selectedProducts f) st3 = (None, st')"
  using assms
  by (auto simp: createSale_def Let_def split: option.splits prod.splits sum.splits
      dest!: resolve_customer_frame sales_insert_ok sale_items_insert_ok)

lemma createSale_stock:
  assumes "createSale now f st = (Inr sale, st')"
    and "distinct (map p_id (selectedProducts f))"
    and "l \<in> set (selectedProducts f)"
  shows "stock_of st' (p_id l) =
     map_option (\<lambda>_. p_stock_quantity l - quantity l) (stock_of st (p_id l))"
proof -
  from createSale_stock_step [OF assms(1)] obtain st3
    where p: "products st3 = products st"
      and u: "update_stock now (selectedProducts f) st3 = (None, st')"
    by blast
  from update_stock_line [OF u assms(2) assms(3)] stock_of_cong [OF p, of "p_id l"]
  show ?thesis by simp
qed

lemma handleSubmit_rejects:
  assumes "l \<in> set (selectedProducts f)" and "p_stock_quantity l < quantity l"
  shows "customerName f \<noteq> [] \<Longrightarrow>
     handleSubmit now f st =
       (Inl \<lparr>title = ''Insufficient Stock'',
             description = ''Not enough stock for: '' @
               join '', '' (map p_name (filter (\<lambda>p. p_stock_quantity p < quantity p) (selectedProducts f)))\<rparr>,
        st)"
    and "\<exists>t. handleSubmit now f st = (Inl t, st)"
proof -
  from assms have "l \<in> set (filter (\<lambda>p. p_stock_quantity p < quantity p) (selectedProducts f))"
    by simp
  then have ne: "filter (\<lambda>p. p_stock_quantity p < quantity p) (selectedProducts f) \<noteq> []"
    by (metis empty_iff empty_set)
  from assms(1) have c: "selectedProducts f \<noteq> []" by auto
  show "customerName f \<noteq> [] \<Longrightarrow>
     handleSubmit now f st =
       (Inl \<lparr>title = ''Insufficient Stock'',
             description = ''Not enough stock for: '' @
               join '', '' (map p_name (filter (\<lambda>p. p_stock_quantity p < quantity p) (selectedProducts f)))\<rparr>,
        st)"
    using ne c by (simp add: handleSubmit_def Let_def)
  show "\<exists>t. handleSubmit now f st = (Inl t, st)"
    using ne c by (simp add: handleSubmit_def Let_def)
qed

lemma handleSubmit_submitted:
  assumes "handleSubmit now f st = (Inr r, st')"
  shows "createSale now f st = (r, st')"
    and "\<forall>l \<in> set (selectedProducts f). quantity l \<le> p_stock_quantity l"
proof -
  from assms have ok: "customerName f \<noteq> [] \<and> selectedProducts f \<noteq> []"
    and emp: "filter (\<lambda>p. p_stock_quantity p < quantity p) (selectedProducts f) = []"
    by (auto simp: handleSubmit_def Let_def split: if_splits)
  from assms ok emp show "createSale now f st = (r, st')"
    by (cases "createSale now f st") (simp add: handleSubmit_def Let_def)
  from emp show "\<forall>l \<in> set (selectedProducts f). quantity l \<le> p_stock_quantity l"
    by (auto simp: filter_empty_conv)
qed


lemma restore_stock_nofault:
  "faults st = [] \<Longrightarrow> stock_of st x = Some S \<Longrightarrow>
     faults (restore_stock now items st) = [] \<and>
     sales (restore_stock now items st) = sales st \<and>
     stock_of (restore_stock now items st) x =
       Some (S + (\<Sum>i\<leftarrow>filter (\<lambda>i. si_product_id i = x) items. si_quantity i))"
proof (induction items arbitrary: st S)
  case Nil
  then show ?case by simp
next
  case (Cons item items)
  let ?q = "si_product_id item"
  have sel: "products_select_single ?q st = (single (filter (\<lambda>p. p_id p = ?q) (products st)), st)"
    using Cons.prems(1) by (simp add: products_select_single_def store_call_def)
  show ?case
  proof (cases "single (filter (\<lambda>p. p_id p = ?q) (products st))")
    case (Inl e)
    have "?q \<noteq> x"
    proof
      assume "?q = x"
      with Cons.prems(2) Inl show False
        by (auto simp: stock_of_Some_iff single_def)
    qed
    with Cons.IH [OF Cons.prems] sel Inl show ?thesis
      by simp
  next
    case (Inr product)
    let ?v = "p_stock_quantity product + si_quantity item"
    let ?st1 = "st\<lparr>products := map (set_stock now ?q ?v) (products st)\<rparr>"
    have upd: "products_update_stock now ?q ?v st = (None, ?st1)"
      using Cons.prems(1) by (simp add: products_update_stock_def store_call_def set_stock_fold)
    have f1: "faults ?st1 = []" and s1: "sales ?st1 = sales st"
      using Cons.prems(1) by simp_all
    have step: "restore_stock now (item # items) st = restore_stock now items ?st1"
      by (simp add: sel Inr upd)
    show ?thesis
    proof (cases "?q = x")
      case True
      from Inr True Cons.prems(2) have "p_stock_quantity product = S"
        by (auto simp: stock_of_Some_iff single_def split: list.splits)
      with True Cons.prems(2) have "stock_of ?st1 x = Some (S + si_quantity item)"
        by (simp add: stock_of_set_stock)
      from Cons.IH [OF f1 this] s1 True show ?thesis
        unfolding step by (simp add: add.assoc)
    next
      case False
      with Cons.prems(2) have "stock_of ?st1 x = Some S"
        by (simp add: stock_of_set_stock)
      from Cons.IH [OF f1 this] s1 False show ?thesis
        unfolding step by simp
    qed
  qed
qed

lemma deleteSale_nofault:
  assumes "faults st = []" and "stock_of st x = Some S"
  shows "fst (deleteSale now sid st) = Inr ()"
    and "stock_of (snd (deleteSale now sid st)) x =
       Some (S + (\<Sum>i\<leftarrow>filter (\<lambda>i. si_sale_id i = sid \<and> si_product_id i = x) (sale_items st).
                    si_quantity i))"
    and "sales (snd (deleteSale now sid st)) = filter (\<lambda>s. s_id s \<noteq> sid) (sales st)"
proof -
  let ?items = "filter (\<lambda>i. si_sale_id i = sid) (sale_items st)"
  let ?st2 = "restore_stock now ?items st"
  note r = restore_stock_nofault [OF assms, of now ?items]
  have d: "deleteSale now sid st = (Inr (), ?st2\<lparr>sales := filter (\<lambda>s. s_id s \<noteq> sid) (sales ?st2)\<rparr>)"
    using assms(1) r
    by (simp add: deleteSale_def sale_items_select_by_sale_def sales_delete_def store_call_def Let_def)
  show "fst (deleteSale now sid st) = Inr ()"
    by (simp add: d)
  have "stock_of (snd (deleteSale now sid st)) x = stock_of ?st2 x"
    unfolding d by (rule stock_of_cong) simp
  with r show "stock_of (snd (deleteSale now sid st)) x =
       Some (S + (\<Sum>i\<leftarrow>filter (\<lambda>i. si_sale_id i = sid \<and> si_product_id i = x) (sale_items st).
                    si_quantity i))"
    by simp
  from r show "sales (snd (deleteSale now sid st)) = filter (\<lambda>s. s_id s \<noteq> sid) (sales st)"
    by (simp add: d)
qed

text \<open>
  C2 (as the code has it): a submission that creates the sale leaves, for each cart line
  (the products of the cart being distinct) whose product the store holds, the stock
  quantity copied into the cart line minus the line's quantity, which is \<open>S - q\<close> when
  the copy still equals the stock \<open>S\<close> of the store; a cart line that asks for more than
  its copied stock quantity makes the submission end in a toast with the store untouched;
  and a \<open>deleteSale\<close> whose store calls all go through succeeds and leaves each product
  at its stock plus the quantities of the sale's items for it, without any upper bound.
\<close>

theorem stock_after_sale_and_delete:
  "(handleSubmit now f st = (Inr (Inr sale), st') \<and> distinct (map p_id (selectedProducts f))
      \<and> l \<in> set (selectedProducts f) \<and> stock_of st (p_id l) = Some S \<longrightarrow>
        quantity l \<le> p_stock_quantity l
      \<and> stock_of st' (p_id l) = Some (p_stock_quantity l - quantity l)
      \<and> (p_stock_quantity l = S \<longrightarrow> stock_of st' (p_id l) = Some (S - quantity l)))
   \<and> (l \<in> set (selectedProducts f) \<and> p_stock_quantity l < quantity l \<longrightarrow>
        (\<exists>t. handleSubmit now f st = (Inl t, st)))
   \<and> (faults st = [] \<and> stock_of st x = Some S \<longrightarrow>
        fst (deleteSale now sid st) = Inr ()
      \<and> stock_of (snd (deleteSale now sid st)) x =
          Some (S + (\<Sum>i\<leftarrow>filter (\<lambda>i. si_sale_id i = sid \<and> si_product_id i = x) (sale_items st).
                       si_quantity i)))"
proof (intro conjI impI)
  assume a: "handleSubmit now f st = (Inr (Inr sale), st') \<and> distinct (map p_id (selectedProducts f))
      \<and> l \<in> set (selectedProducts f) \<and> stock_of st (p_id l) = Some S"
  from handleSubmit_submitted [of now f st "Inr sale" st'] a
  have c: "createSale now f st = (Inr sale, st')"
    and q: "\<forall>l \<in> set (selectedProducts f). quantity l \<le> p_stock_quantity l"
    by simp_all
  from q a show "quantity l \<le> p_stock_quantity l"
    by blast
  from createSale_stock [OF c, of l] a
  show s: "stock_of st' (p_id l) = Some (p_stock_quantity l - quantity l)"
    by simp
  assume "p_stock_quantity l = S"
  with s show "stock_of st' (p_id l) = Some (S - quantity l)"
    by simp
next
  assume "l \<in> set (selectedProducts f) \<and> p_stock_quantity l < quantity l"
  then show "\<exists>t. handleSubmit now f st = (Inl t, st)"
    using handleSubmit_rejects(2) [of l f now st] by simp
next
  assume a: "faults st = [] \<and> stock_of st x = Some S"
  then show "fst (deleteSale now sid st) = Inr ()"
    using deleteSale_nofault(1) [of st x S now sid] by simp
  from a show "stock_of (snd (deleteSale now sid st)) x =
          Some (S + (\<Sum>i\<leftarrow>filter (\<lambda>i. si_sale_id i = sid \<and> si_product_id i = x) (sale_items st).
                       si_quantity i))"
    using deleteSale_nofault(2) [of st x S now sid] by simp
qed

lemma handleSubmit_example:
  "handleSubmit 2000 example_form pending_store =
     (Inr (fst (createSale 2000 example_form pending_store)),
      snd (createSale 2000 example_form pending_store))"
  by (simp add: handleSubmit_def Let_def createSale_example) (simp add: example_form_def)

lemma stock_of_pending_store: "stock_of pending_store 4 = Some 3"
  by (simp add: stock_of_def pending_store_def)

theorem stock_after_sale_and_delete_witness:
  "stock_of pending_store 4 = Some 3
   \<and> stock_of (snd (handleSubmit 2000 example_form pending_store)) 4 = Some 1
   \<and> (\<exists>t. handleSubmit 2000 oversold_form pending_store = (Inl t, pending_store))
   \<and> fst (deleteSale 2000 10 pending_store) = Inr ()
   \<and> stock_of (snd (deleteSale 2000 10 pending_store)) 4 = Some 5"
proof -
  let ?l = "\<lparr>p_id = 4, p_name = ''A'', p_cost = 10, p_stock_quantity = 3, p_is_active = True,
          p_updated_at = 1000, quantity = 2, sellingPrice = 15\<rparr>"
  let ?o = "\<lparr>p_id = 4, p_name = ''A'', p_cost = 10, p_stock_quantity = 3, p_is_active = True,
          p_updated_at = 1000, quantity = 5, sellingPrice = 15\<rparr>"
  let ?sale = "\<lparr>s_id = 11, s_customer_id = 3, s_user_id = 7, s_total_amount = 30, s_total_cost = 20,
           s_payment_status = Pending, s_due_date = Some ''2025-02-28'', s_sale_date = 2000\<rparr>"
  have h: "handleSubmit 2000 example_form pending_store =
      (Inr (Inr ?sale), snd (handleSubmit 2000 example_form pending_store))"
    by (simp add: handleSubmit_example createSale_example)
  have c: "selectedProducts example_form = [?l]"
    by (simp add: example_form_def)
  have o: "selectedProducts oversold_form = [?o]"
    by (simp add: oversold_form_def)
  have f: "faults pending_store = []"
    by (simp add: pending_store_def)
  have i: "sale_items pending_store =
      [\<lparr>si_sale_id = 10, si_product_id = 4, si_quantity = 2, si_unit_price = 15, si_unit_cost = 10\<rparr>]"
    by (simp add: pending_store_def)
  from stock_after_sale_and_delete [of 2000 example_form pending_store ?sale
      "snd (handleSubmit 2000 example_form pending_store)" ?l 3 4 10]
    h c f stock_of_pending_store
  have a: "stock_of (snd (handleSubmit 2000 example_form pending_store)) 4 = Some 1
     \<and> fst (deleteSale 2000 10 pending_store) = Inr ()
     \<and> stock_of (snd (deleteSale 2000 10 pending_store)) 4 = Some 5"
    by (simp add: i)
  from stock_after_sale_and_delete [of 2000 oversold_form pending_store ?sale pending_store ?o 3 4 10] o
  have b: "\<exists>t. handleSubmit 2000 oversold_form pending_store = (Inl t, pending_store)"
    by simp
  from a b stock_of_pending_store show ?thesis
    by blast
qed

theorem stale_cart_stock_counterexample:
  "stock_of pending_store 4 = Some 3
   \<and> fst (handleSubmit 2000 stale_form pending_store) =
       Inr (Inr \<lparr>s_id = 11, s_customer_id = 3, s_user_id = 7, s_total_amount = 30,
                 s_total_cost = 20, s_payment_status = Pending,
                 s_due_date = Some ''2025-02-28'', s_sale_date = 2000\<rparr>)
   \<and> map quantity (selectedProducts stale_form) = [2]
   \<and> stock_of (snd (handleSubmit 2000 stale_form pending_store)) 4 = Some 3
   \<and> stock_of (snd (handleSubmit 2000 stale_form pending_store)) 4 \<noteq> Some (3 - 2)"
  by (simp add: handleSubmit_def createSale_def resolve_customer_def customers_select_by_name_def
      single_def sales_insert_def sale_items_insert_def saleItems_of_def products_update_stock_def
      store_call_def or_null_def Let_def stock_of_def stale_form_def example_form_def
      pending_store_def dadd_def dmul_def)

text \<open>
  C4 (as the code has it): a cart with a line that asks for more than the stock quantity
  copied into that line makes the submission end in a toast with no store call made, so
  the store, its sales, sale items and stock, is as before; with the customer name
  entered the toast is the one titled Insufficient Stock, whose description lists the
  names of exactly the lines that ask for too much, in cart order.
\<close>

theorem insufficient_stock_rejected:
  assumes "l \<in> set (selectedProducts f)"
    and "p_stock_quantity l < quantity l"
  shows "(\<exists>t. handleSubmit now f st = (Inl t, st))
     \<and> (customerName f \<noteq> [] \<longrightarrow>
          handleSubmit now f st =
            (Inl \<lparr>title = ''Insufficient Stock'',
                  description = ''Not enough stock for: '' @
                    join '', '' (map p_name (filter (\<lambda>p. p_stock_quantity p < quantity p) (selectedProducts f)))\<rparr>,
             st))
     \<and> p_name l \<in> set (map p_name (filter (\<lambda>p. p_stock_quantity p < quantity p) (selectedProducts f)))"
  using assms handleSubmit_rejects(1) [OF assms, of now st] handleSubmit_rejects(2) [OF assms, of now st]
  by simp

theorem insufficient_stock_rejected_witness:
  "customerName oversold_form \<noteq> []
   \<and> map quantity (selectedProducts oversold_form) = [5]
   \<and> map p_stock_quantity (selectedProducts oversold_form) = [3]
   \<and> handleSubmit 2000 oversold_form pending_store =
       (Inl \<lparr>title = ''Insufficient Stock'', description = ''Not enough stock for: A''\<rparr>,
        pending_store)"
proof -
  let ?o = "\<lparr>p_id = 4, p_name = ''A'', p_cost = 10, p_stock_quantity = 3, p_is_active = True,
          p_updated_at = 1000, quantity = 5, sellingPrice = 15\<rparr>"
  have o: "selectedProducts oversold_form = [?o]"
    by (simp add: oversold_form_def)
  have n: "customerName oversold_form \<noteq> []"
    by (simp add: oversold_form_def example_form_def)
  from insufficient_stock_rejected [of ?o oversold_form 2000 pending_store] n
  show ?thesis
    by (simp add: o)
qed

theorem stale_copy_oversold_accepted_counterexample:
  "stock_of pending_store 4 = Some 3
   \<and> map quantity (selectedProducts stale_oversold_form) = [4]
   \<and> fst (handleSubmit 2000 stale_oversold_form pending_store) =
       Inr (Inr \<lparr>s_id = 11, s_customer_id = 3, s_user_id = 7, s_total_amount = 60,
                 s_total_cost = 40, s_payment_status = Pending,
                 s_due_date = Some ''2025-02-28'', s_sale_date = 2000\<rparr>)
   \<and> length (sales (snd (handleSubmit 2000 stale_oversold_form pending_store))) = 2
   \<and> map si_quantity (sale_items (snd (handleSubmit 2000 stale_oversold_form pending_store))) = [2, 4]
   \<and> stock_of (snd (handleSubmit 2000 stale_oversold_form pending_store)) 4 = Some 1"
  by (simp add: handleSubmit_def createSale_def resolve_customer_def customers_select_by_name_def
      single_def sales_insert_def sale_items_insert_def saleItems_of_def products_update_stock_def
      store_call_def or_null_def Let_def stock_of_def stale_oversold_form_def example_form_def
      pending_store_def dadd_def dmul_def)

section \<open>Errors of store calls\<close>

lemma update_stock_fails_at:
  "faults st = replicate k None @ Some e # rest \<Longrightarrow> k < length ps \<Longrightarrow>
     fst (update_stock now ps st) = Some e \<and> faults (snd (update_stock now ps st)) = rest"
proof (induction ps arbitrary: k st)
  case Nil
  then show ?case by simp
next
  case (Cons p ps)
  show ?case
  proof (cases k)
    case 0
    with Cons.prems show ?thesis
      by (simp add: products_update_stock_def store_call_def)
  next
    case (Suc j)
    let ?st1 = "st\<lparr>faults := replicate j None @ Some e # rest,
        products := map (set_stock now (p_id p) (p_stock_quantity p - quantity p)) (products st)\<rparr>"
    from Suc Cons.prems(1)
    have u: "products_update_stock now (p_id p) (p_stock_quantity p - quantity p) st = (None, ?st1)"
      by (simp add: products_update_stock_def store_call_def set_stock_fold)
    have f1: "faults ?st1 = replicate j None @ Some e # rest"
      by simp
    from Suc Cons.prems(2) have "j < length ps" by simp
    from Cons.IH [OF f1 this] show ?thesis
      by (simp add: u)
  qed
qed

lemma createSale_after_customer:
  assumes s: "session st = Some u"
    and r: "resolve_customer f st = (Inr cid, st1)"
    and t: "faults st1 = replicate k None @ Some e # rest"
    and k: "k < 2 + length (selectedProducts f)"
  shows "fst (createSale now f st) = Inl (StoreError e) \<and> faults (snd (createSale now f st)) = rest"
proof (cases k)
  case 0
  with t show ?thesis
    by (simp add: createSale_def s r sales_insert_def store_call_def Let_def)
next
  case (Suc k1)
  let ?a = "foldl (\<lambda>sum item. dadd sum (dmul (sellingPrice item) (of_int (quantity item)))) 0 (selectedProducts f)"
  let ?c = "foldl (\<lambda>sum item. dadd sum (dmul (p_cost item) (of_int (quantity item)))) 0 (selectedProducts f)"
  obtain sale st2 where i: "sales_insert now cid u ?a ?c (paymentStatus f) (or_null (dueDate f)) st1 = (Inr sale, st2)"
    and t2: "faults st2 = replicate k1 None @ Some e # rest"
    using t Suc by (simp add: sales_insert_def store_call_def Let_def)
  show ?thesis
  proof (cases k1)
    case 0
    with t2 show ?thesis
      by (simp add: createSale_def s r i sale_items_insert_def store_call_def Let_def)
  next
    case (Suc k2)
    obtain st3 where j: "sale_items_insert (saleItems_of (s_id sale) (selectedProducts f)) st2 = (None, st3)"
      and t3: "faults st3 = replicate k2 None @ Some e # rest"
      using t2 Suc by (simp add: sale_items_insert_def store_call_def)
    from k \<open>k = Suc k1\<close> Suc have "k2 < length (selectedProducts f)" by simp
    from update_stock_fails_at [OF t3 this, of now] show ?thesis
      by (cases "update_stock now (selectedProducts f) st3")
        (simp add: createSale_def s r i j Let_def)
  qed
qed

lemma createSale_fails_at:
  assumes s: "session st = Some u"
    and t: "faults st = h # replicate k None @ Some e # rest"
    and k: "k < (if h = None \<and> \<not> isl (single (filter (\<lambda>c. c_name c = customerName f) (customers st)))
                then 2 else 3) + length (selectedProducts f)"
  shows "fst (createSale now f st) = Inl (StoreError e) \<and> faults (snd (createSale now f st)) = rest"
proof (cases "h = None \<and> \<not> isl (single (filter (\<lambda>c. c_name c = customerName f) (customers st)))")
  case True
  then obtain c where c: "single (filter (\<lambda>c. c_name c = customerName f) (customers st)) = Inr c"
    by (cases "single (filter (\<lambda>c. c_name c = customerName f) (customers st))") simp_all
  let ?st1 = "st\<lparr>faults := replicate k None @ Some e # rest\<rparr>"
  from True t c have r: "resolve_customer f st = (Inr (c_id c), ?st1)"
    by (simp add: resolve_customer_def customers_select_by_name_def store_call_def)
  from True k have "k < 2 + length (selectedProducts f)" by simp
  from createSale_after_customer [OF s r _ this, of e rest now] show ?thesis
    by simp
next
  case False
  let ?st0 = "st\<lparr>faults := replicate k None @ Some e # rest\<rparr>"
  from False t have l: "\<exists>x. customers_select_by_name (customerName f) st = (Inl x, ?st0)"
    by (cases h; cases "single (filter (\<lambda>c. c_name c = customerName f) (customers st))")
      (simp_all add: customers_select_by_name_def store_call_def)
  show ?thesis
  proof (cases k)
    case 0
    with l have "resolve_customer f st = (Inl e, st\<lparr>faults := rest\<rparr>)"
      by (auto simp: resolve_customer_def customers_insert_def store_call_def)
    then show ?thesis
      by (simp add: createSale_def s)
  next
    case (Suc k1)
    with l obtain cid st1 where r: "resolve_customer f st = (Inr cid, st1)"
      and t1: "faults st1 = replicate k1 None @ Some e # rest"
      by (auto simp: resolve_customer_def customers_insert_def store_call_def Let_def)
    from False k have "k < 3 + length (selectedProducts f)" by (simp split: if_splits)
    with Suc have "k1 < 2 + length (selectedProducts f)" by simp
    from createSale_after_customer [OF s r t1 this] show ?thesis .
  qed
qed

lemma markAsPaid_fails_first:
  "faults st = Some e # rest \<Longrightarrow> markAsPaid now d st = (Inl (StoreError e), st\<lparr>faults := rest\<rparr>)"
  by (simp add: markAsPaid_def debtors_update_resolved_def store_call_def)

lemma markAsPaid_fails_third:
  assumes "faults st = None # None # Some e # rest"
    and "\<not> isl (single (filter (\<lambda>r. d_id r = d) (debtors st)))"
  shows "fst (markAsPaid now d st) = Inl (StoreError e) \<and> faults (snd (markAsPaid now d st)) = rest
     \<and> sales (snd (markAsPaid now d st)) = sales st"
proof -
  from assms(2) obtain r where "single (filter (\<lambda>r. d_id r = d) (debtors st)) = Inr r"
    by (cases "single (filter (\<lambda>r. d_id r = d) (debtors st))") simp_all
  with assms(1) show ?thesis
    by (simp add: markAsPaid_def debtors_update_resolved_def debtors_select_single_def
        sales_update_paid_def store_call_def resolve_row_fold filter_resolved_rows single_map)
qed

lemma isl_single_set_stock:
  "isl (single (filter (\<lambda>p. p_id p = y) (map (set_stock now x v) ps))) =
     isl (single (filter (\<lambda>p. p_id p = y) ps))"
  by (cases "single (filter (\<lambda>p. p_id p = y) ps)") (simp_all add: filter_set_stock single_map)

lemma restore_calls_set_stock:
  "restore_calls items (st\<lparr>faults := t, products := map (set_stock now x v) (products st)\<rparr>) =
     restore_calls items st"
  by (simp add: restore_calls_def isl_single_set_stock)

lemma restore_calls_faults [simp]: "restore_calls items (st\<lparr>faults := t\<rparr>) = restore_calls items st"
  by (simp add: restore_calls_def)

lemma restore_stock_calls:
  "faults st = replicate (restore_calls items st) None @ t \<Longrightarrow>
     faults (restore_stock now items st) = t \<and> sales (restore_stock now items st) = sales st"
proof (induction items arbitrary: st)
  case Nil
  then show ?case by (simp add: restore_calls_def)
next
  case (Cons item items)
  let ?q = "si_product_id item"
  let ?sel = "single (filter (\<lambda>p. p_id p = ?q) (products st))"
  have rc: "restore_calls (item # items) st = (if isl ?sel then 1 else 2) + restore_calls items st"
    by (simp add: restore_calls_def)
  show ?case
  proof (cases ?sel)
    case (Inl x)
    let ?st1 = "st\<lparr>faults := replicate (restore_calls items st) None @ t\<rparr>"
    from Inl Cons.prems rc have sel: "products_select_single ?q st = (Inl x, ?st1)"
      by (simp add: products_select_single_def store_call_def)
    have "faults ?st1 = replicate (restore_calls items ?st1) None @ t"
      by simp
    from Cons.IH [OF this] show ?thesis
      by (simp add: sel)
  next
    case (Inr product)
    let ?v = "p_stock_quantity product + si_quantity item"
    let ?st1 = "st\<lparr>faults := None # replicate (restore_calls items st) None @ t\<rparr>"
    let ?st2 = "st\<lparr>faults := replicate (restore_calls items st) None @ t,
                  products := map (set_stock now ?q ?v) (products st)\<rparr>"
    from Inr Cons.prems rc have sel: "products_select_single ?q st = (Inr product, ?st1)"
      by (simp add: products_select_single_def store_call_def)
    have upd: "products_update_stock now ?q ?v ?st1 = (None, ?st2)"
      by (simp add: products_update_stock_def store_call_def set_stock_fold)
    have "faults ?st2 = replicate (restore_calls items ?st2) None @ t"
      by (simp add: restore_calls_set_stock)
    from Cons.IH [OF this] show ?thesis
      by (simp add: sel upd)
  qed
qed

lemma deleteSale_fails_at_delete:
  assumes "faults st =
      replicate (1 + restore_calls (filter (\<lambda>i. si_sale_id i = sid) (sale_items st)) st) None
        @ Some e # rest"
  shows "fst (deleteSale now sid st) = Inl (StoreError e)
     \<and> faults (snd (deleteSale now sid st)) = rest
     \<and> sales (snd (deleteSale now sid st)) = sales st"
proof -
  let ?items = "filter (\<lambda>i. si_sale_id i = sid) (sale_items st)"
  let ?st1 = "st\<lparr>faults := replicate (restore_calls ?items st) None @ Some e # rest\<rparr>"
  from assms have sel: "sale_items_select_by_sale sid st = (Inr ?items, ?st1)"
    by (simp add: sale_items_select_by_sale_def store_call_def)
  have "faults ?st1 = replicate (restore_calls ?items ?st1) None @ Some e # rest"
    by simp
  from restore_stock_calls [OF this, of now] show ?thesis
    by (simp add: deleteSale_def sel sales_delete_def store_call_def Let_def)
qed


text \<open>
  The store calls whose error the code checks surface it. In \<open>createSale\<close>, once the
  customer lookup is over, the first failing call among the customer insert, the sale
  insert, the sale-items insert and the stock updates ends the mutation with exactly that
  error, and no further store call is made: the outcomes left for later calls are
  untouched. In \<open>markAsPaid\<close> a failed debtor update ends the mutation with its error
  and nothing written, and a failed sale update ends it with its error. In
  \<open>deleteSale\<close> a failed delete of the sale ends the mutation with its error and the
  sale kept.
\<close>

theorem checked_store_errors_surface:
  "(session st = Some u \<and> faults st = h # replicate k None @ Some e # rest
      \<and> k < (if h = None \<and> \<not> isl (single (filter (\<lambda>c. c_name c = customerName f) (customers st)))
             then 2 else 3) + length (selectedProducts f) \<longrightarrow>
        fst (createSale now f st) = Inl (StoreError e)
      \<and> faults (snd (createSale now f st)) = rest)
   \<and> (faults sm = Some e # rest \<longrightarrow>
        markAsPaid now d sm = (Inl (StoreError e), sm\<lparr>faults := rest\<rparr>))
   \<and> (faults sp = None # None # Some e # rest
      \<and> \<not> isl (single (filter (\<lambda>r. d_id r = d) (debtors sp))) \<longrightarrow>
        fst (markAsPaid now d sp) = Inl (StoreError e)
      \<and> faults (snd (markAsPaid now d sp)) = rest
      \<and> sales (snd (markAsPaid now d sp)) = sales sp)
   \<and> (faults sd =
        replicate (1 + restore_calls (filter (\<lambda>i. si_sale_id i = sid) (sale_items sd)) sd) None
          @ Some e # rest \<longrightarrow>
        fst (deleteSale now sid sd) = Inl (StoreError e)
      \<and> faults (snd (deleteSale now sid sd)) = rest
      \<and> sales (snd (deleteSale now sid sd)) = sales sd)"
proof (intro conjI impI)
  assume a: "session st = Some u \<and> faults st = h # replicate k None @ Some e # rest
      \<and> k < (if h = None \<and> \<not> isl (single (filter (\<lambda>c. c_name c = customerName f) (customers st)))
             then 2 else 3) + length (selectedProducts f)"
  then have c: "fst (createSale now f st) = Inl (StoreError e) \<and> faults (snd (createSale now f st)) = rest"
    using createSale_fails_at [of st u h k e rest f now] by blast
  from c show "fst (createSale now f st) = Inl (StoreError e)" by simp
  from c show "faults (snd (createSale now f st)) = rest" by simp
next
  assume "faults sm = Some e # rest"
  then show "markAsPaid now d sm = (Inl (StoreError e), sm\<lparr>faults := rest\<rparr>)"
    by (rule markAsPaid_fails_first)
next
  assume a: "faults sp = None # None # Some e # rest
      \<and> \<not> isl (single (filter (\<lambda>r. d_id r = d) (debtors sp)))"
  then have m: "fst (markAsPaid now d sp) = Inl (StoreError e) \<and> faults (snd (markAsPaid now d sp)) = rest
     \<and> sales (snd (markAsPaid now d sp)) = sales sp"
    using markAsPaid_fails_third [of sp e rest d now] by blast
  from m show "fst (markAsPaid now d sp) = Inl (StoreError e)" by simp
  from m show "faults (snd (markAsPaid now d sp)) = rest" by simp
  from m show "sales (snd (markAsPaid now d sp)) = sales sp" by simp
next
  assume a: "faults sd =
        replicate (1 + restore_calls (filter (\<lambda>i. si_sale_id i = sid) (sale_items sd)) sd) None
          @ Some e # rest"
  note x = deleteSale_fails_at_delete [OF a, of now]
  from x show "fst (deleteSale now sid sd) = Inl (StoreError e)" by simp
  from x show "faults (snd (deleteSale now sid sd)) = rest" by simp
  from x show "sales (snd (deleteSale now sid sd)) = sales sd" by simp
qed

lemma restore_calls_pending_store:
  "restore_calls (filter (\<lambda>i. si_sale_id i = 10) (sale_items pending_store))
     (pending_store\<lparr>faults := t\<rparr>) = 2"
  by (simp add: restore_calls_def single_def pending_store_def)

theorem checked_store_errors_surface_witness:
  "fst (createSale 2000 example_form
          (pending_store\<lparr>faults := [None, None, Some ''timeout'', Some ''later'']\<rparr>)) =
     Inl (StoreError ''timeout'')
   \<and> faults (snd (createSale 2000 example_form
          (pending_store\<lparr>faults := [None, None, Some ''timeout'', Some ''later'']\<rparr>))) =
     [Some ''later'']
   \<and> markAsPaid 2000 1 (pending_store\<lparr>faults := [Some ''timeout'', Some ''later'']\<rparr>) =
       (Inl (StoreError ''timeout''), pending_store\<lparr>faults := [Some ''later'']\<rparr>)
   \<and> fst (markAsPaid 2000 1 (pending_store\<lparr>faults := [None, None, Some ''timeout'', Some ''later'']\<rparr>)) =
       Inl (StoreError ''timeout'')
   \<and> fst (deleteSale 2000 10
          (pending_store\<lparr>faults := [None, None, None, Some ''timeout'', Some ''later'']\<rparr>)) =
       Inl (StoreError ''timeout'')
   \<and> sales (snd (deleteSale 2000 10
          (pending_store\<lparr>faults := [None, None, None, Some ''timeout'', Some ''later'']\<rparr>))) =
       sales pending_store"
proof -
  let ?st = "pending_store\<lparr>faults := [None, None, Some ''timeout'', Some ''later'']\<rparr>"
  let ?sm = "pending_store\<lparr>faults := [Some ''timeout'', Some ''later'']\<rparr>"
  let ?sd = "pending_store\<lparr>faults := [None, None, None, Some ''timeout'', Some ''later'']\<rparr>"
  have c: "\<not> isl (single (filter (\<lambda>c. c_name c = customerName example_form) (customers ?st)))"
    by (simp add: single_def example_form_def pending_store_def)
  have d: "\<not> isl (single (filter (\<lambda>r. d_id r = 1) (debtors ?st)))"
    by (simp add: single_def pending_store_def)
  have s: "session ?st = Some 7"
    by (simp add: pending_store_def)
  have n: "length (selectedProducts example_form) = 1"
    by (simp add: example_form_def)
  have r: "restore_calls (filter (\<lambda>i. si_sale_id i = 10) (sale_items ?sd)) ?sd = 2"
    using restore_calls_pending_store [of "[None, None, None, Some ''timeout'', Some ''later'']"]
    by simp
  have p: "sales ?sd = sales pending_store"
    by simp
  from checked_store_errors_surface [of ?st 7 None 1 "''timeout''" "[Some ''later'']"
      example_form 2000 ?sm 1 ?st ?sd 10] c d s n r p
  show ?thesis
    by (simp add: eval_nat_numeral)
qed

text \<open>
  C6: errors of store calls that are dropped. \<open>deleteSale\<close> on a sale with one item,
  where the write that restores the stock fails: the mutation completes successfully,
  the sale is deleted and the stock is as before. \<open>createSale\<close> for an existing
  customer, where the customer lookup fails: the mutation completes successfully with a
  second customer row of the same name.
\<close>

theorem store_errors_swallowed:
  "fst (createSale 2000 example_form (pending_store\<lparr>faults := [Some ''Failed to fetch'']\<rparr>)) =
     Inr \<lparr>s_id = 12, s_customer_id = 11, s_user_id = 7, s_total_amount = 30, s_total_cost = 20,
          s_payment_status = Pending, s_due_date = Some ''2025-02-28'', s_sale_date = 2000\<rparr>
   \<and> map c_name (customers (snd (createSale 2000 example_form
         (pending_store\<lparr>faults := [Some ''Failed to fetch'']\<rparr>)))) = [''Ann'', ''Ann'']
   \<and> fst (deleteSale 3000 10 (pending_store\<lparr>faults := [None, None, Some ''Failed to fetch'']\<rparr>)) =
       Inr ()
   \<and> sales (snd (deleteSale 3000 10
         (pending_store\<lparr>faults := [None, None, Some ''Failed to fetch'']\<rparr>))) = []
   \<and> stock_of (snd (deleteSale 3000 10
         (pending_store\<lparr>faults := [None, None, Some ''Failed to fetch'']\<rparr>))) 4 = Some 3"
  by (simp add: createSale_def resolve_customer_def customers_select_by_name_def
      customers_insert_def single_def sales_insert_def sale_items_insert_def saleItems_of_def
      products_update_stock_def store_call_def or_null_def Let_def deleteSale_def
      sale_items_select_by_sale_def products_select_single_def sales_delete_def stock_of_def
      example_form_def pending_store_def dadd_def dmul_def)

end
